theory Spec2Isabelle
  imports Complex_Main
begin

section \<open>Strings of the runtime\<close>

text \<open>
  The application is a single TypeScript module (\<^verbatim>\<open>src/App.tsx\<close>). Its strings are
  JavaScript strings: sequences of UTF-16 code units. A code unit is modelled as a natural
  number (below 65536), so that text outside Latin-1, which \<^verbatim>\<open>btoa\<close> refuses, can be
  written down. A literal of the source is written \<open>js ''...''\<close>.
\<close>

type_synonym jsstring = "nat list"

definition js :: "string \<Rightarrow> jsstring" where
  "js s = map of_char s"

text \<open>Decimal digits of a non-negative integer, as \<^verbatim>\<open>toString\<close> prints them.\<close>

fun dec :: "nat \<Rightarrow> jsstring" where
  "dec n = (if n < 10 then [48 + n] else dec (n div 10) @ [48 + n mod 10])"

declare dec.simps [simp del]

text \<open>
  \<^verbatim>\<open>String.prototype.trim\<close> removes the code units of the ECMAScript productions
  WhiteSpace and LineTerminator from both ends.
\<close>

definition js_whitespace :: "nat \<Rightarrow> bool" where
  "js_whitespace c \<longleftrightarrow>
     c \<in> {9, 10, 11, 12, 13, 32, 160, 5760, 8232, 8233, 8239, 8287, 12288, 65279}
     \<or> (8192 \<le> c \<and> c \<le> 8202)"

definition trim :: "jsstring \<Rightarrow> jsstring" where
  "trim s = rev (dropWhile js_whitespace (rev (dropWhile js_whitespace s)))"

text \<open>\<^verbatim>\<open>s.split(sep)\<close> for a separator of one code unit; the result is never empty.\<close>

fun split :: "nat \<Rightarrow> jsstring \<Rightarrow> jsstring list" where
  "split sep [] = [[]]"
| "split sep (c # cs) =
     (if c = sep then [] # split sep cs
      else case split sep cs of
             [] \<Rightarrow> [[c]]
           | p # ps \<Rightarrow> (c # p) # ps)"

text \<open>\<^verbatim>\<open>s.includes(p)\<close>: \<open>p\<close> occurs in \<open>s\<close> as a contiguous run.\<close>

fun starts_with :: "jsstring \<Rightarrow> jsstring \<Rightarrow> bool" where
  "starts_with s [] = True"
| "starts_with [] (p # ps) = False"
| "starts_with (c # cs) (p # ps) = (c = p \<and> starts_with cs ps)"

fun includes_sub :: "jsstring \<Rightarrow> jsstring \<Rightarrow> bool" where
  "includes_sub [] p = (p = [])"
| "includes_sub (c # cs) p = (starts_with (c # cs) p \<or> includes_sub cs p)"

text \<open>\<^verbatim>\<open>parts.join(sep)\<close> on an array of strings.\<close>

fun join :: "jsstring \<Rightarrow> jsstring list \<Rightarrow> jsstring" where
  "join sep [] = []"
| "join sep [p] = p"
| "join sep (p # q # ps) = p @ sep @ join sep (q # ps)"

text \<open>
  \<^verbatim>\<open>String.prototype.toLowerCase\<close>. On a string of Latin-1 code units the Unicode case
  mapping works unit by unit: it folds A to Z and U+00C0 to U+00DE (without the
  multiplication sign) and leaves every other unit. On a string that holds a code unit
  above Latin-1 the result is the runtime's, by its Unicode case tables, which are not
  part of this development: it is the parameter \<open>unicode\<close>.
\<close>

definition lower_unit :: "nat \<Rightarrow> nat" where
  "lower_unit c =
     (if 65 \<le> c \<and> c \<le> 90 then c + 32
      else if 192 \<le> c \<and> c \<le> 222 \<and> c \<noteq> 215 then c + 32
      else c)"

definition toLowerCase :: "(jsstring \<Rightarrow> jsstring) \<Rightarrow> jsstring \<Rightarrow> jsstring" where
  "toLowerCase unicode s =
     (if list_all (\<lambda>c. c \<le> 255) s then map lower_unit s else unicode s)"

text \<open>\<^verbatim>\<open>xs.indexOf(x)\<close>: the first position of \<open>x\<close>, or \<open>-1\<close>.\<close>

fun indexOf :: "'a list \<Rightarrow> 'a \<Rightarrow> int" where
  "indexOf [] x = - 1"
| "indexOf (y # ys) x =
     (if y = x then 0
      else let i = indexOf ys x in if i < 0 then - 1 else i + 1)"

text \<open>\<^verbatim>\<open>xs[i]\<close>: an array read outside the array is \<^verbatim>\<open>undefined\<close>, here \<open>None\<close>.\<close>

definition at_index :: "'a list \<Rightarrow> int \<Rightarrow> 'a option" where
  "at_index xs i = (if 0 \<le> i \<and> i < int (length xs) then Some (xs ! nat i) else None)"

section \<open>Numbers of the runtime\<close>

text \<open>
  A JavaScript number is an IEEE 754 double. A finite double is modelled by the rational
  it denotes; the sign of a zero is not kept, no output modelled here depending on it.
  The product of two doubles is the exact product rounded to the nearest double, ties to
  the even significand, with 53 bits of significand, exponents from \<open>-1074\<close> and
  overflow to an infinity.
\<close>

datatype number = Finite rat | PosInfinity | NegInfinity | NaN

fun bitlen :: "nat \<Rightarrow> nat" where
  "bitlen n = (if n = 0 then 0 else Suc (bitlen (n div 2)))"

declare bitlen.simps [simp del]

text \<open>The integer part of the binary logarithm of a positive rational.\<close>

definition ilog2 :: "rat \<Rightarrow> int" where
  "ilog2 q =
     (let (n, d) = quotient_of q;
          k = int (bitlen (nat n)) - int (bitlen (nat d))
      in if 2 powi k \<le> q then k else k - 1)"

definition round_half_even :: "rat \<Rightarrow> int" where
  "round_half_even s =
     (let f = \<lfloor>s\<rfloor>; r = s - of_int f
      in if r < 1 / 2 then f
         else if 1 / 2 < r then f + 1
         else if even f then f else f + 1)"

definition round_double :: "rat \<Rightarrow> number" where
  "round_double q =
     (if q = 0 then Finite 0
      else let e = max (ilog2 \<bar>q\<bar> - 52) (- 1074);
               m = round_half_even (\<bar>q\<bar> / 2 powi e);
               y = of_int m * 2 powi e
           in if 2 ^ 1024 \<le> y then (if q < 0 then NegInfinity else PosInfinity)
              else Finite (if q < 0 then - y else y))"

fun times_number :: "number \<Rightarrow> number \<Rightarrow> number" where
  "times_number (Finite a) (Finite b) = round_double (a * b)"
| "times_number NaN _ = NaN"
| "times_number _ NaN = NaN"
| "times_number (Finite a) PosInfinity =
     (if a = 0 then NaN else if 0 < a then PosInfinity else NegInfinity)"
| "times_number (Finite a) NegInfinity =
     (if a = 0 then NaN else if 0 < a then NegInfinity else PosInfinity)"
| "times_number PosInfinity (Finite b) =
     (if b = 0 then NaN else if 0 < b then PosInfinity else NegInfinity)"
| "times_number NegInfinity (Finite b) =
     (if b = 0 then NaN else if 0 < b then NegInfinity else PosInfinity)"
| "times_number PosInfinity PosInfinity = PosInfinity"
| "times_number PosInfinity NegInfinity = NegInfinity"
| "times_number NegInfinity PosInfinity = NegInfinity"
| "times_number NegInfinity NegInfinity = PosInfinity"

fun divide_number :: "number \<Rightarrow> number \<Rightarrow> number" where
  "divide_number (Finite a) (Finite b) =
     (if b = 0 then (if a = 0 then NaN else if 0 < a then PosInfinity else NegInfinity)
      else round_double (a / b))"
| "divide_number NaN _ = NaN"
| "divide_number _ NaN = NaN"
| "divide_number (Finite a) PosInfinity = Finite 0"
| "divide_number (Finite a) NegInfinity = Finite 0"
| "divide_number PosInfinity (Finite b) = (if 0 \<le> b then PosInfinity else NegInfinity)"
| "divide_number NegInfinity (Finite b) = (if 0 \<le> b then NegInfinity else PosInfinity)"
| "divide_number _ _ = NaN"

text \<open>
  \<^verbatim>\<open>Number::toString\<close> prints the shortest digits that read back as the same double.
  For an integer below \<open>2^53\<close> in magnitude these are its decimal digits. The algorithm
  that finds them for every other finite number (a fraction, or an integer from \<open>2^53\<close>,
  whose last digits it replaces by zeros) belongs to the runtime and is the parameter
  \<open>shortest\<close>.
\<close>

definition numberToString :: "(rat \<Rightarrow> jsstring) \<Rightarrow> number \<Rightarrow> jsstring" where
  "numberToString shortest x =
     (case x of
        NaN \<Rightarrow> js ''NaN''
      | PosInfinity \<Rightarrow> js ''Infinity''
      | NegInfinity \<Rightarrow> js ''-Infinity''
      | Finite q \<Rightarrow>
          if of_int \<lfloor>q\<rfloor> = q \<and> \<bar>q\<bar> < 2 ^ 53
          then (if q < 0 then js ''-'' else []) @ dec (nat \<bar>\<lfloor>q\<rfloor>\<bar>)
          else shortest q)"

text \<open>
  \<^verbatim>\<open>x.toFixed(0)\<close>, after the ECMAScript algorithm: a value that is not finite prints by
  \<^verbatim>\<open>Number::toString\<close>; otherwise the sign is split off, a magnitude from \<open>10^21\<close>
  prints by \<^verbatim>\<open>Number::toString\<close>, and a smaller one prints, with all its digits, the
  integer \<open>n\<close> for which \<open>n - x\<close> is closest to zero, the larger of two such integers.
\<close>

definition nearest_integer :: "rat \<Rightarrow> int" where
  "nearest_integer x =
     (let f = \<lfloor>x\<rfloor> in if x - of_int f < of_int (f + 1) - x then f else f + 1)"

definition toFixed0 :: "(rat \<Rightarrow> jsstring) \<Rightarrow> number \<Rightarrow> jsstring" where
  "toFixed0 shortest x =
     (case x of
        Finite q \<Rightarrow>
          (if q < 0 then js ''-'' else []) @
          (if 10 ^ 21 \<le> \<bar>q\<bar> then numberToString shortest (Finite \<bar>q\<bar>)
           else dec (nat (nearest_integer \<bar>q\<bar>)))
      | _ \<Rightarrow> numberToString shortest x)"

text \<open>\<^verbatim>\<open>x || 0\<close> on an optional number: absent, zero and NaN are falsy.\<close>

definition number_or_zero :: "number option \<Rightarrow> number" where
  "number_or_zero x =
     (case x of
        None \<Rightarrow> Finite 0
      | Some NaN \<Rightarrow> Finite 0
      | Some (Finite q) \<Rightarrow> (if q = 0 then Finite 0 else Finite q)
      | Some n \<Rightarrow> n)"

section \<open>Base64 of the platform\<close>

text \<open>
  \<^verbatim>\<open>btoa\<close> and \<^verbatim>\<open>atob\<close> are functions of the browser. \<^verbatim>\<open>btoa\<close> throws
  \<^verbatim>\<open>InvalidCharacterError\<close> when a code unit is above 255; otherwise it reads the
  code units as bytes, three at a time, and writes four characters of the alphabet
  \<^verbatim>\<open>A-Z a-z 0-9 + /\<close> for them, padding the last group with \<^verbatim>\<open>=\<close>. \<^verbatim>\<open>atob\<close> removes
  ASCII whitespace, removes one or two padding characters at the end of an input whose
  length is a multiple of four, throws when the rest has length 1 modulo 4 or holds a
  character outside the alphabet, and writes the bytes back.
\<close>

datatype js_error = InvalidCharacterError

definition b64char :: "nat \<Rightarrow> nat" where
  "b64char n =
     (if n < 26 then 65 + n
      else if n < 52 then 71 + n
      else if n < 62 then n - 4
      else if n = 62 then 43
      else 47)"

definition b64val :: "nat \<Rightarrow> nat option" where
  "b64val c =
     (if 65 \<le> c \<and> c \<le> 90 then Some (c - 65)
      else if 97 \<le> c \<and> c \<le> 122 then Some (c - 71)
      else if 48 \<le> c \<and> c \<le> 57 then Some (c + 4)
      else if c = 43 then Some 62
      else if c = 47 then Some 63
      else None)"

fun sextets :: "nat list \<Rightarrow> nat list" where
  "sextets (a # b # c # rest) =
     (a div 4) # ((a mod 4) * 16 + b div 16) # ((b mod 16) * 4 + c div 64) # (c mod 64)
       # sextets rest"
| "sextets [a, b] = [a div 4, (a mod 4) * 16 + b div 16, (b mod 16) * 4]"
| "sextets [a] = [a div 4, (a mod 4) * 16]"
| "sextets [] = []"

definition btoa :: "jsstring \<Rightarrow> js_error + jsstring" where
  "btoa s =
     (if \<exists>c \<in> set s. 255 < c then Inl InvalidCharacterError
      else Inr (map b64char (sextets s) @ replicate ((3 - length s mod 3) mod 3) 61))"

fun octets :: "nat list \<Rightarrow> nat list" where
  "octets (w # x # y # z # rest) =
     (w * 4 + x div 16) # ((x mod 16) * 16 + y div 4) # ((y mod 4) * 64 + z) # octets rest"
| "octets [w, x, y] = [w * 4 + x div 16, (x mod 16) * 16 + y div 4]"
| "octets [w, x] = [w * 4 + x div 16]"
| "octets [w] = []"
| "octets [] = []"

definition ascii_whitespace :: "nat \<Rightarrow> bool" where
  "ascii_whitespace c \<longleftrightarrow> c = 9 \<or> c = 10 \<or> c = 12 \<or> c = 13 \<or> c = 32"

definition strip_padding :: "jsstring \<Rightarrow> jsstring" where
  "strip_padding d =
     (let r = rev d in
      if length d mod 4 \<noteq> 0 then d
      else if take 2 r = [61, 61] then rev (drop 2 r)
      else if take 1 r = [61] then rev (drop 1 r)
      else d)"

definition atob :: "jsstring \<Rightarrow> js_error + jsstring" where
  "atob s =
     (let d = strip_padding (filter (\<lambda>c. \<not> ascii_whitespace c) s) in
      if length d mod 4 = 1 then Inl InvalidCharacterError
      else case those (map b64val d) of
             None \<Rightarrow> Inl InvalidCharacterError
           | Some vs \<Rightarrow> Inr (octets vs))"

section \<open>The reviewer identity token\<close>

text \<open>
  \<^verbatim>\<open>const reviewerId = btoa(`${r.email}-${assessmentId}`)\<close> in \<^verbatim>\<open>handleSubmit\<close>.
\<close>

definition reviewerId :: "jsstring \<Rightarrow> jsstring \<Rightarrow> js_error + jsstring" where
  "reviewerId email assessmentId = btoa (email @ js ''-'' @ assessmentId)"

text \<open>
  Modelled from the spec: the cut that a decoder has to make, the source having no
  decoder. The text under the Base64 step is the email, a hyphen and the assessment id;
  the cut is at the last hyphen, where the digits of the id begin.
\<close>

definition split_last_hyphen :: "jsstring \<Rightarrow> (jsstring \<times> jsstring) option" where
  "split_last_hyphen s =
     (if 45 \<notin> set s then None
      else Some (rev (drop 1 (dropWhile (\<lambda>c. c \<noteq> 45) (rev s))),
                 rev (takeWhile (\<lambda>c. c \<noteq> 45) (rev s))))"

text \<open>
  Modelled from the spec: \<open>decode(token) -> (email, assessmentId)\<close> of the Identity
  Encoder. The source never decodes a token (the \<^verbatim>\<open>reviewerId\<close> query parameter is stored
  and not read again), so there is no code to translate. The spec asks that \<open>decode\<close>
  reconstruct the values given to \<open>encode\<close>, the token being one reversible text encoding
  of both: the decoder undoes the Base64 step and cuts the text at its last hyphen.
\<close>

definition decode :: "jsstring \<Rightarrow> (jsstring \<times> jsstring) option" where
  "decode token =
     (case atob token of
        Inl _ \<Rightarrow> None
      | Inr s \<Rightarrow> split_last_hyphen s)"

section \<open>The data model\<close>

text \<open>
  The five criteria are the keys of \<^verbatim>\<open>FeedbackSubmission.scores\<close> and
  \<^verbatim>\<open>FeedbackSubmission.textResponses\<close>; one record type serves both.
\<close>

record 'a criteria =
  leadership_vision :: 'a
  communication_influence :: 'a
  experience_expertise :: 'a
  cultural_fit :: 'a
  team_management :: 'a

record feedbackSubmission =
  reviewerEmail :: jsstring
  reviewerName :: jsstring
  submissionTimestamp :: jsstring
  scores :: "number criteria"
  textResponses :: "jsstring criteria"

text \<open>\<^verbatim>\<open>interface CriterionScore\<close>; its field \<^verbatim>\<open>feedback\<close> is \<open>feedback'\<close> here.\<close>

record criterionScore =
  score :: number
  feedback' :: jsstring

text \<open>
  The agent's payload is typed \<^verbatim>\<open>any\<close> in the source. The model gives it the shape the
  views read, every field optional: \<open>None\<close> is a property that is absent (reads as
  \<^verbatim>\<open>undefined\<close>). An object is the list of its entries, in the order
  \<^verbatim>\<open>Object.entries\<close> lists them. Only the \<^verbatim>\<open>feedback_summary\<close> part is read by the
  operations modelled here.
\<close>

record consensusAreas =
  strong_agreement :: "jsstring option"
  areas_of_disagreement :: "jsstring option"

record feedbackSummary =
  overall_score :: "number option"
  total_responses :: "number option"
  completion_percentage :: "number option"
  recommendation :: "jsstring option"
  recommendation_rationale :: "jsstring option"
  key_strengths :: "jsstring list option"
  key_concerns :: "jsstring list option"
  criterion_breakdown :: "(jsstring \<times> criterionScore) list option"
  consensus_areas :: "consensusAreas option"
  executive_summary :: "jsstring option"

record agentFeedback =
  feedback_summary :: "feedbackSummary option"

text \<open>
  \<^verbatim>\<open>data.result || data\<close>: the parsed response either wraps the payload in a
  \<^verbatim>\<open>result\<close> property or is the payload.
\<close>

datatype agentData = Wrapped agentFeedback | Bare agentFeedback

datatype requestStatus = Draft | Sent | Completed

text \<open>An element of \<^verbatim>\<open>FeedbackRequest.formLinks\<close>; its fields carry the prefix \<open>link_\<close>.\<close>

record formLink =
  link_email :: jsstring
  link_reviewerName :: jsstring
  link_url :: jsstring
  link_status :: jsstring

text \<open>\<^verbatim>\<open>interface FeedbackRequest\<close>; the field \<^verbatim>\<open>id\<close> is \<open>id'\<close> here.\<close>

record feedbackRequest =
  id' :: jsstring
  candidateName :: jsstring
  candidateRole :: jsstring
  reviewerEmails :: "jsstring list"
  reviewerNames :: "jsstring list"
  status :: requestStatus
  createdAt :: jsstring
  formLinks :: "formLink list"
  feedback :: "agentFeedback option"
  responses :: "feedbackSubmission list"

datatype view = InputView | DashboardView | FeedbackView

text \<open>The state of the \<^verbatim>\<open>App\<close> component (its \<^verbatim>\<open>useState\<close> cells).\<close>

record appState =
  currentView :: view
  requests :: "feedbackRequest list"
  selectedRequest :: "feedbackRequest option"
  loading :: bool
  error :: jsstring
  successMessage :: jsstring
  feedbackReviewerEmail :: jsstring
  feedbackReviewerId :: jsstring

text \<open>
  What the handlers take from outside the module: the clock, the page's origin, the agent
  call and the parser of its response (each returns, \<open>Inr\<close>, or throws an error with a
  message, \<open>Inl\<close>), the message of the browser's \<^verbatim>\<open>InvalidCharacterError\<close>, the locale's
  date format, the number printer of the runtime and its lower-casing of strings that
  reach above Latin-1. The agent call is always made with the same agent id, which the
  model leaves out.
\<close>

record env =
  now :: nat
  isoNow :: jsstring
  origin :: jsstring
  callAIAgent :: "jsstring \<Rightarrow> jsstring + jsstring"
  parseLLMJson :: "jsstring \<Rightarrow> jsstring + agentData"
  invalidCharacterMessage :: jsstring
  toLocaleDateString :: "jsstring \<Rightarrow> jsstring"
  shortestDigits :: "rat \<Rightarrow> jsstring"
  unicodeLowerCase :: "jsstring \<Rightarrow> jsstring"

section \<open>Creating an assessment\<close>

text \<open>
  \<^verbatim>\<open>handleSubmit\<close> reads the reviewers from a text of lines \<^verbatim>\<open>Name|email\<close>. A line is
  split at \<^verbatim>\<open>|\<close>, its parts trimmed; the first part is the name, the second the email,
  \<^verbatim>\<open>undefined\<close> when the line has no \<^verbatim>\<open>|\<close>. Lines whose email is missing, empty or
  without \<^verbatim>\<open>@\<close> are dropped.
\<close>

definition parse_line :: "jsstring \<Rightarrow> jsstring \<times> jsstring option" where
  "parse_line line =
     (case map trim (split 124 line) of
        [] \<Rightarrow> ([], None)
      | [n] \<Rightarrow> (n, None)
      | n # e # _ \<Rightarrow> (n, Some e))"

record reviewer =
  r_name :: jsstring
  r_email :: jsstring

definition plausible :: "jsstring option \<Rightarrow> bool" where
  "plausible e = (case e of None \<Rightarrow> False | Some a \<Rightarrow> a \<noteq> [] \<and> includes_sub a (js ''@''))"

definition keep_reviewer :: "jsstring \<times> jsstring option \<Rightarrow> reviewer option" where
  "keep_reviewer p =
     (case snd p of
        None \<Rightarrow> None
      | Some a \<Rightarrow> if plausible (Some a) then Some \<lparr>r_name = fst p, r_email = a\<rparr> else None)"

definition reviewerList :: "jsstring \<Rightarrow> reviewer list" where
  "reviewerList reviewerData =
     List.map_filter keep_reviewer (map parse_line (split 10 reviewerData))"

definition submit_message :: "jsstring \<Rightarrow> jsstring \<Rightarrow> reviewer list \<Rightarrow> jsstring" where
  "submit_message cName cRole rl =
     join [10]
       [js ''Please process feedback collection for:'',
        js ''      - Candidate Name: '' @ cName,
        js ''      - Candidate Role: '' @ cRole,
        js ''      - Reviewer Emails: '' @ join (js '', '') (map r_email rl),
        [],
        js ''      Generate unique feedback form links for each reviewer and send invitations. Then track responses and provide analysis.'']"

text \<open>The map over \<^verbatim>\<open>reviewerList\<close> that builds the form links stops where \<^verbatim>\<open>btoa\<close> throws.\<close>

fun make_links :: "jsstring \<Rightarrow> jsstring \<Rightarrow> reviewer list \<Rightarrow> js_error + formLink list" where
  "make_links org assessmentId [] = Inr []"
| "make_links org assessmentId (r # rs) =
     (case reviewerId (r_email r) assessmentId of
        Inl e \<Rightarrow> Inl e
      | Inr token \<Rightarrow>
          (case make_links org assessmentId rs of
             Inl e \<Rightarrow> Inl e
           | Inr ls \<Rightarrow>
               Inr (\<lparr>link_email = r_email r,
                     link_reviewerName = r_name r,
                     link_url = org @ js ''?reviewerId='' @ token @ js ''&email='' @ r_email r
                                  @ js ''&assessmentId='' @ assessmentId,
                     link_status = js ''sent''\<rparr> # ls)))"

text \<open>
  What a form link owes its roster entry: the entry's email and name, the status
  \<^verbatim>\<open>sent\<close>, and a URL that carries the entry's token, email and the assessment's id, the
  token decoding to that email and id.
\<close>

definition link_ok :: "jsstring \<Rightarrow> jsstring \<Rightarrow> reviewer \<Rightarrow> formLink \<Rightarrow> bool" where
  "link_ok org aid r l \<longleftrightarrow>
     link_email l = r_email r \<and> link_reviewerName l = r_name r \<and> link_status l = js ''sent''
     \<and> (\<exists>token. reviewerId (r_email r) aid = Inr token
           \<and> link_url l = org @ js ''?reviewerId='' @ token @ js ''&email='' @ r_email r
                            @ js ''&assessmentId='' @ aid
           \<and> decode token = Some (r_email r, aid))"

text \<open>The body of the \<^verbatim>\<open>try\<close> block: \<open>Inl\<close> carries the message of what was thrown.\<close>

definition submit_body ::
  "env \<Rightarrow> appState \<Rightarrow> jsstring \<Rightarrow> jsstring \<Rightarrow> reviewer list \<Rightarrow> jsstring \<Rightarrow> jsstring + appState" where
  "submit_body ev st cName cRole rl message =
     (case callAIAgent ev message of
        Inl m \<Rightarrow> Inl m
      | Inr response \<Rightarrow>
     (case parseLLMJson ev response of
        Inl m \<Rightarrow> Inl m
      | Inr data \<Rightarrow>
     (let feedbackData = (case data of Wrapped f \<Rightarrow> f | Bare f \<Rightarrow> f);
          assessmentId = dec (now ev)
      in case make_links (origin ev) assessmentId rl of
           Inl InvalidCharacterError \<Rightarrow> Inl (invalidCharacterMessage ev)
         | Inr links \<Rightarrow>
             (let newRequest =
                \<lparr>id' = assessmentId,
                 candidateName = cName,
                 candidateRole = cRole,
                 reviewerEmails = map r_email rl,
                 reviewerNames = map r_name rl,
                 status = Sent,
                 createdAt = isoNow ev,
                 formLinks = links,
                 feedback = Some feedbackData,
                 responses = []\<rparr>
              in Inr (st\<lparr>requests := requests st @ [newRequest],
                         selectedRequest := Some newRequest,
                         successMessage :=
                           js ''Assessment created! Share the feedback form links with reviewers.'',
                         currentView := DashboardView\<rparr>)))))"

text \<open>
  \<^verbatim>\<open>handleSubmit\<close> returns the state it leaves and the messages it has passed to the agent.
\<close>

definition handleSubmit ::
  "env \<Rightarrow> appState \<Rightarrow> jsstring \<Rightarrow> jsstring \<Rightarrow> jsstring \<Rightarrow> appState \<times> jsstring list" where
  "handleSubmit ev st cName cRole reviewerData =
     (let st0 = st\<lparr>error := [], successMessage := []\<rparr> in
      if trim cName = [] \<or> trim cRole = [] \<or> trim reviewerData = []
      then (st0\<lparr>error := js ''Please fill in all fields''\<rparr>, [])
      else let rl = reviewerList reviewerData in
        if length rl = 0
        then (st0\<lparr>error := js ''Please enter at least one valid reviewer with email''\<rparr>, [])
        else let message = submit_message cName cRole rl in
          (case submit_body ev (st0\<lparr>loading := True\<rparr>) cName cRole rl message of
             Inl m \<Rightarrow>
               st0\<lparr>error := (if m = [] then js ''Failed to process request'' else m),
                    loading := False\<rparr>
           | Inr st' \<Rightarrow> st'\<lparr>loading := False\<rparr>,
           [message]))"

section \<open>Submitting feedback\<close>

text \<open>
  \<^verbatim>\<open>FeedbackFormView.handleSubmit\<close> builds the submission. The reviewer's name is read
  from the roster at the position of the email; where the email is not on the roster
  (\<^verbatim>\<open>indexOf\<close> is \<open>-1\<close>) or the name is empty, the email stands for the name.
\<close>

definition formSubmission ::
  "env \<Rightarrow> feedbackRequest \<Rightarrow> jsstring \<Rightarrow> number criteria \<Rightarrow> jsstring criteria \<Rightarrow> feedbackSubmission" where
  "formSubmission ev request rEmail sc txt =
     \<lparr>reviewerEmail = rEmail,
      reviewerName =
        (case at_index (reviewerNames request) (indexOf (reviewerEmails request) rEmail) of
           None \<Rightarrow> rEmail
         | Some n \<Rightarrow> if n = [] then rEmail else n),
      submissionTimestamp = isoNow ev,
      scores = sc,
      textResponses = txt\<rparr>"

text \<open>
  \<^verbatim>\<open>const updatedRequest = { ...selectedRequest, responses: [...selectedRequest.responses, submission] }\<close>
\<close>

definition updatedRequest :: "feedbackRequest \<Rightarrow> feedbackSubmission \<Rightarrow> feedbackRequest" where
  "updatedRequest sel submission = sel\<lparr>responses := responses sel @ [submission]\<rparr>"

text \<open>\<^verbatim>\<open>JSON.stringify(submission.scores)\<close>; a number that is not finite prints as \<^verbatim>\<open>null\<close>.\<close>

definition json_number :: "env \<Rightarrow> number \<Rightarrow> jsstring" where
  "json_number ev x =
     (case x of Finite q \<Rightarrow> numberToString (shortestDigits ev) x | _ \<Rightarrow> js ''null'')"

definition json_scores :: "env \<Rightarrow> number criteria \<Rightarrow> jsstring" where
  "json_scores ev sc =
     js ''{'' @
     join (js '','')
       [[34] @ js ''leadership_vision'' @ [34] @ js '':'' @ json_number ev (leadership_vision sc),
        [34] @ js ''communication_influence'' @ [34] @ js '':''
          @ json_number ev (communication_influence sc),
        [34] @ js ''experience_expertise'' @ [34] @ js '':''
          @ json_number ev (experience_expertise sc),
        [34] @ js ''cultural_fit'' @ [34] @ js '':'' @ json_number ev (cultural_fit sc),
        [34] @ js ''team_management'' @ [34] @ js '':'' @ json_number ev (team_management sc)]
     @ js ''}''"

definition feedback_message :: "env \<Rightarrow> feedbackRequest \<Rightarrow> feedbackSubmission \<Rightarrow> jsstring" where
  "feedback_message ev updated submission =
     join [10]
       [js ''New feedback received for '' @ candidateName updated @ js '':'',
        js ''      Reviewer: '' @ reviewerName submission @ js '' ('' @ reviewerEmail submission
          @ js '')'',
        js ''      Scores: '' @ json_scores ev (scores submission)]"

text \<open>
  The state \<^verbatim>\<open>handleFeedbackSubmit\<close> has written when it reaches
  \<^verbatim>\<open>await callAIAgent(...)\<close>: every state update of the handler's \<^verbatim>\<open>try\<close> block comes
  before the call.
\<close>

definition stateAtAwait :: "appState \<Rightarrow> feedbackRequest \<Rightarrow> feedbackSubmission \<Rightarrow> appState" where
  "stateAtAwait st sel submission =
     st\<lparr>loading := True,
        requests :=
          map (\<lambda>r. if id' r = id' sel then updatedRequest sel submission else r) (requests st),
        selectedRequest := Some (updatedRequest sel submission),
        successMessage := js ''Thank you! Your feedback has been submitted.'',
        currentView := InputView,
        feedbackReviewerId := [],
        feedbackReviewerEmail := []\<rparr>"

definition handleFeedbackSubmit ::
  "env \<Rightarrow> appState \<Rightarrow> feedbackSubmission \<Rightarrow> appState \<times> jsstring list" where
  "handleFeedbackSubmit ev st submission =
     (case selectedRequest st of
        None \<Rightarrow> (st, [])
      | Some sel \<Rightarrow>
          (let st1 = stateAtAwait st sel submission;
               message = feedback_message ev (updatedRequest sel submission) submission
           in (case callAIAgent ev message of
                 Inl m \<Rightarrow>
                   st1\<lparr>error := (if m = [] then js ''Failed to submit feedback'' else m),
                        loading := False\<rparr>
               | Inr _ \<Rightarrow> st1\<lparr>loading := False\<rparr>,
               [message])))"

section \<open>The summary view\<close>

text \<open>\<^verbatim>\<open>getRecommendationColor\<close>; \<^verbatim>\<open>recommendation?.toLowerCase() || ''\<close> is empty for a
  recommendation that is absent.\<close>

definition getRecommendationColor :: "env \<Rightarrow> jsstring option \<Rightarrow> jsstring" where
  "getRecommendationColor ev r =
     (let rc = (case r of None \<Rightarrow> [] | Some s \<Rightarrow> toLowerCase (unicodeLowerCase ev) s) in
      if includes_sub rc (js ''strong hire'') then js ''bg-gradient-to-br from-green-50 to-emerald-50''
      else if includes_sub rc (js ''hire'') then js ''bg-gradient-to-br from-blue-50 to-cyan-50''
      else if includes_sub rc (js ''consider'') then js ''bg-gradient-to-br from-amber-50 to-yellow-50''
      else if includes_sub rc (js ''caution'') then js ''bg-gradient-to-br from-orange-50 to-red-50''
      else if includes_sub rc (js ''do not'') then js ''bg-gradient-to-br from-red-50 to-rose-50''
      else js ''bg-gradient-to-br from-slate-50 to-slate-100'')"






text \<open>
  \<^verbatim>\<open>SummaryView\<close> returns markup. The model keeps what the markup shows: the texts, the
  values of the progress bars, the class of the recommendation card and the list items.
  A text that is \<^verbatim>\<open>undefined\<close> renders as nothing.
\<close>

definition emptySummary :: feedbackSummary where
  "emptySummary =
     \<lparr>overall_score = None, total_responses = None, completion_percentage = None,
      recommendation = None, recommendation_rationale = None, key_strengths = None,
      key_concerns = None, criterion_breakdown = None, consensus_areas = None,
      executive_summary = None\<rparr>"

definition criteriaList :: "(jsstring \<times> jsstring) list" where
  "criteriaList =
     [(js ''leadership_vision'', js ''Leadership & Vision''),
      (js ''communication_influence'', js ''Communication & Influence''),
      (js ''experience_expertise'', js ''Experience & Expertise''),
      (js ''cultural_fit'', js ''Cultural Fit''),
      (js ''team_management'', js ''Team Management'')]"

record criterionRow =
  row_key :: jsstring
  row_label :: jsstring
  row_badge :: jsstring
  row_progress :: number
  row_feedback :: "jsstring option"

record summaryView =
  score_text :: jsstring
  score_progress :: number
  based_on_text :: jsstring
  card_class :: jsstring
  recommendation_text :: jsstring
  rationale_text :: jsstring
  criterion_rows :: "criterionRow list"
  strengths_shown :: "jsstring list"
  concerns_shown :: "jsstring list"

definition rendered :: "jsstring option \<Rightarrow> jsstring" where
  "rendered t = (case t of None \<Rightarrow> [] | Some s \<Rightarrow> s)"

definition criterion_row :: "env \<Rightarrow> (jsstring \<times> criterionScore) list \<Rightarrow> jsstring \<times> jsstring \<Rightarrow> criterionRow" where
  "criterion_row ev criterionBreakdown criterion =
     (let d = (case map_of criterionBreakdown (fst criterion) of
                 None \<Rightarrow> \<lparr>score = Finite 0, feedback' = []\<rparr>
               | Some e \<Rightarrow> e)
      in \<lparr>row_key = fst criterion,
          row_label = snd criterion,
          row_badge = numberToString (shortestDigits ev) (score d) @ js ''/5'',
          row_progress = times_number (divide_number (score d) (Finite 5)) (Finite 100),
          row_feedback = (if feedback' d = [] then None else Some (feedback' d))\<rparr>)"

definition SummaryView :: "env \<Rightarrow> agentFeedback \<Rightarrow> summaryView" where
  "SummaryView ev fb =
     (let summary = (case feedback_summary fb of None \<Rightarrow> emptySummary | Some s \<Rightarrow> s);
          criterionBreakdown = (case criterion_breakdown summary of None \<Rightarrow> [] | Some b \<Rightarrow> b);
          overallScore = number_or_zero (overall_score summary)
      in \<lparr>score_text =
            toFixed0 (shortestDigits ev) (times_number overallScore (Finite 20)) @ js ''%'',
          score_progress = times_number overallScore (Finite 20),
          based_on_text =
            js ''Based on ''
            @ numberToString (shortestDigits ev) (number_or_zero (total_responses summary))
            @ js '' responses (''
            @ numberToString (shortestDigits ev) (number_or_zero (completion_percentage summary))
            @ js ''% complete)'',
          card_class = getRecommendationColor ev (recommendation summary),
          recommendation_text = rendered (recommendation summary),
          rationale_text = rendered (recommendation_rationale summary),
          criterion_rows = map (criterion_row ev criterionBreakdown) criteriaList,
          strengths_shown =
            take 3 (case key_strengths summary of None \<Rightarrow> [] | Some ks \<Rightarrow> ks),
          concerns_shown =
            take 3 (case key_concerns summary of None \<Rightarrow> [] | Some ks \<Rightarrow> ks)\<rparr>)"

section \<open>The exported report\<close>

text \<open>
  \<^verbatim>\<open>generatePDFContent\<close> fills a template literal and trims it. An interpolated value
  that is \<^verbatim>\<open>undefined\<close> prints as the text \<^verbatim>\<open>undefined\<close>.
\<close>

definition interpolated :: "jsstring option \<Rightarrow> jsstring" where
  "interpolated t = (case t of None \<Rightarrow> js ''undefined'' | Some s \<Rightarrow> s)"

definition bullet :: "jsstring \<Rightarrow> jsstring" where
  "bullet s = [8226, 32] @ s"

definition breakdown_line :: "env \<Rightarrow> jsstring \<times> criterionScore \<Rightarrow> jsstring" where
  "breakdown_line ev entry =
     fst entry @ js '': '' @ numberToString (shortestDigits ev) (score (snd entry)) @ js ''/5 - ''
     @ feedback' (snd entry)"

definition report_lines :: "env \<Rightarrow> feedbackRequest \<Rightarrow> jsstring list" where
  "report_lines ev request =
     (let fb = (case feedback request of
                  None \<Rightarrow> emptySummary
                | Some f \<Rightarrow> (case feedback_summary f of None \<Rightarrow> emptySummary | Some s \<Rightarrow> s))
      in [[],
          js ''FEEDBACK ASSESSMENT REPORT'',
          js ''=========================='',
          [],
          js ''Candidate: '' @ candidateName request,
          js ''Position: '' @ candidateRole request,
          js ''Assessment Date: '' @ toLocaleDateString ev (createdAt request),
          [],
          js ''OVERALL SCORE'',
          js ''============='',
          js ''Overall Score: ''
            @ toFixed0 (shortestDigits ev)
                (times_number (number_or_zero (overall_score fb)) (Finite 20))
            @ js ''%'',
          js ''Total Responses: ''
            @ numberToString (shortestDigits ev) (number_or_zero (total_responses fb)),
          js ''Completion: ''
            @ numberToString (shortestDigits ev) (number_or_zero (completion_percentage fb))
            @ js ''%'',
          [],
          js ''RECOMMENDATION'',
          js ''=============='',
          js ''Recommendation: '' @ interpolated (recommendation fb),
          js ''Rationale: '' @ interpolated (recommendation_rationale fb),
          [],
          js ''KEY STRENGTHS'',
          js ''============='',
          join [10] (map bullet (case key_strengths fb of None \<Rightarrow> [] | Some ks \<Rightarrow> ks)),
          [],
          js ''KEY CONCERNS'',
          js ''============'',
          join [10] (map bullet (case key_concerns fb of None \<Rightarrow> [] | Some ks \<Rightarrow> ks)),
          [],
          js ''CRITERION BREAKDOWN'',
          js ''==================='',
          join [10]
            (map (breakdown_line ev) (case criterion_breakdown fb of None \<Rightarrow> [] | Some b \<Rightarrow> b)),
          [],
          js ''CONSENSUS AREAS'',
          js ''==============='',
          js ''Strong Agreement: ''
            @ interpolated (case consensus_areas fb of None \<Rightarrow> None | Some a \<Rightarrow> strong_agreement a),
          js ''Areas of Disagreement: ''
            @ interpolated
                (case consensus_areas fb of None \<Rightarrow> None | Some a \<Rightarrow> areas_of_disagreement a),
          [],
          js ''EXECUTIVE SUMMARY'',
          js ''================='',
          interpolated (executive_summary fb),
          js ''  ''])"

definition generatePDFContent :: "env \<Rightarrow> feedbackRequest \<Rightarrow> jsstring" where
  "generatePDFContent ev request = trim (join [10] (report_lines ev request))"

text \<open>\<^verbatim>\<open>handleExportPDF\<close> exports nothing when no request is selected or it has no feedback.\<close>

definition handleExportPDF :: "env \<Rightarrow> appState \<Rightarrow> jsstring option" where
  "handleExportPDF ev st =
     (case selectedRequest st of
        None \<Rightarrow> None
      | Some r \<Rightarrow> (case feedback r of None \<Rightarrow> None | Some _ \<Rightarrow> Some (generatePDFContent ev r)))"

section \<open>A small instance\<close>

text \<open>
  A runtime whose agent answers with an empty payload, one whose agent call fails, and the
  assessment of the specification's end-to-end scenario: candidate Sarah Johnson, one
  reviewer John with the address \<^verbatim>\<open>john@x.com\<close>.
\<close>

definition example_env :: env where
  "example_env =
     \<lparr>now = 1700000000000,
      isoNow = js ''2023-11-14T22:13:20.000Z'',
      origin = js ''https://app.example'',
      callAIAgent = (\<lambda>m. Inr (js ''{}'')),
      parseLLMJson = (\<lambda>r. Inr (Bare \<lparr>feedback_summary = None\<rparr>)),
      invalidCharacterMessage = js ''Invalid character'',
      toLocaleDateString = (\<lambda>d. js ''11/14/2023''),
      shortestDigits = (\<lambda>q. js ''?''),
      unicodeLowerCase = (\<lambda>s. s)\<rparr>"

definition failing_env :: env where
  "failing_env = example_env\<lparr>callAIAgent := (\<lambda>m. Inl (js ''Network error''))\<rparr>"

definition example_request :: feedbackRequest where
  "example_request =
     \<lparr>id' = js ''1700000000000'',
      candidateName = js ''Sarah Johnson'',
      candidateRole = js ''Eng Manager'',
      reviewerEmails = [js ''john@x.com''],
      reviewerNames = [js ''John''],
      status = Sent,
      createdAt = js ''2023-11-14T22:13:20.000Z'',
      formLinks =
        [\<lparr>link_email = js ''john@x.com'',
          link_reviewerName = js ''John'',
          link_url = js ''https://app.example?reviewerId=am9obkB4LmNvbS0xNzAwMDAwMDAwMDAw&email=john@x.com&assessmentId=1700000000000'',
          link_status = js ''sent''\<rparr>],
      feedback = Some \<lparr>feedback_summary = None\<rparr>,
      responses = []\<rparr>"

definition initial_state :: appState where
  "initial_state =
     \<lparr>currentView = InputView, requests = [], selectedRequest = None, loading = False,
      error = [], successMessage = [], feedbackReviewerEmail = [], feedbackReviewerId = []\<rparr>"

definition example_state :: appState where
  "example_state =
     initial_state\<lparr>currentView := FeedbackView, requests := [example_request],
       selectedRequest := Some example_request\<rparr>"

definition all_fours :: "number criteria" where
  "all_fours =
     \<lparr>leadership_vision = Finite 4, communication_influence = Finite 4,
      experience_expertise = Finite 4, cultural_fit = Finite 4, team_management = Finite 4\<rparr>"

definition no_comments :: "jsstring criteria" where
  "no_comments =
     \<lparr>leadership_vision = [], communication_influence = [], experience_expertise = [],
      cultural_fit = [], team_management = []\<rparr>"

text \<open>The example assessment with an analysis attached: four strengths, four concerns.\<close>

definition example_summary :: feedbackSummary where
  "example_summary =
     \<lparr>overall_score = Some (Finite (7 / 2)),
      total_responses = Some (Finite 1),
      completion_percentage = Some (Finite 100),
      recommendation = Some (js ''Strong Hire''),
      recommendation_rationale = Some (js ''Consistent scores''),
      key_strengths = Some [js ''Vision'', js ''Clarity'', js ''Depth'', js ''Care''],
      key_concerns = Some [js ''Pace'', js ''Scope'', js ''Focus'', js ''Detail''],
      criterion_breakdown =
        Some [(js ''leadership_vision'', \<lparr>score = Finite 4, feedback' = js ''Clear direction''\<rparr>)],
      consensus_areas = None,
      executive_summary = Some (js ''A strong candidate.'')\<rparr>"

definition analysed_request :: feedbackRequest where
  "analysed_request =
     example_request\<lparr>feedback := Some \<lparr>feedback_summary = Some example_summary\<rparr>\<rparr>"

section \<open>Properties of the encoding\<close>

lemma b64val_b64char: "n < 64 \<Longrightarrow> b64val (b64char n) = Some n"
  by (auto simp: b64val_def b64char_def)

lemma b64char_not_pad: "n < 64 \<Longrightarrow> b64char n \<noteq> 61"
  by (auto simp: b64char_def)

lemma b64char_not_ws: "n < 64 \<Longrightarrow> \<not> ascii_whitespace (b64char n)"
  by (auto simp: b64char_def ascii_whitespace_def)

lemma sextets_lt: "\<forall>c \<in> set s. c \<le> 255 \<Longrightarrow> \<forall>v \<in> set (sextets s). v < 64"
  by (induction s rule: sextets.induct) auto

lemma octets_sextets: "\<forall>c \<in> set s. c \<le> 255 \<Longrightarrow> octets (sextets s) = s"
  by (induction s rule: sextets.induct) auto

lemma length_sextets:
  "length (sextets s) + (3 - length s mod 3) mod 3 = 4 * ((length s + 2) div 3)"
proof (induction s rule: sextets.induct)
  case (1 a b c rest)
  have n: "length (a # b # c # rest) = length rest + 3" by simp
  have m: "length (a # b # c # rest) mod 3 = length rest mod 3"
    unfolding n by (rule mod_add_self2)
  have d: "(length (a # b # c # rest) + 2) div 3 = (length rest + 2) div 3 + 1"
    by simp
  have l: "length (sextets (a # b # c # rest)) = length (sextets rest) + 4" by simp
  show ?case unfolding m d l using 1 by simp
qed simp_all

lemma length_sextets_mod: "length (sextets s) mod 4 \<noteq> 1"
proof (induction s rule: sextets.induct)
  case (1 a b c rest)
  have l: "length (sextets (a # b # c # rest)) = length (sextets rest) + 4" by simp
  show ?case unfolding l using 1 by simp
qed simp_all

lemma those_b64val: "\<forall>v \<in> set vs. v < 64 \<Longrightarrow> those (map b64val (map b64char vs)) = Some vs"
  by (induction vs) (auto simp: b64val_b64char)

lemma filter_ws_body:
  assumes "\<forall>v \<in> set vs. v < 64"
  shows "filter (\<lambda>c. \<not> ascii_whitespace c) (map b64char vs @ replicate p 61)
         = map b64char vs @ replicate p 61"
proof (rule filter_True, rule ballI)
  fix x assume "x \<in> set (map b64char vs @ replicate p 61)"
  then consider v where "v \<in> set vs" "x = b64char v" | "x = 61" by auto
  then show "\<not> ascii_whitespace x"
  proof cases
    case 1 with assms show ?thesis by (simp add: b64char_not_ws)
  next
    case 2 then show ?thesis by (simp add: ascii_whitespace_def)
  qed
qed

lemma strip_padding_body:
  assumes "61 \<notin> set body" and "p \<le> 2" and "length (body @ replicate p 61) mod 4 = 0"
  shows "strip_padding (body @ replicate p 61) = body"
proof -
  have r1: "take 1 (rev body) \<noteq> [61]"
  proof (cases "rev body")
    case (Cons x xs)
    then have "x \<in> set body" by (metis list.set_intros(1) set_rev)
    with assms(1) Cons show ?thesis by auto
  qed simp
  have r2: "take 2 (rev body) \<noteq> [61, 61]"
  proof (cases "rev body")
    case (Cons x xs)
    then have "x \<in> set body" by (metis list.set_intros(1) set_rev)
    with assms(1) Cons show ?thesis by (cases xs) auto
  qed simp
  have r3: "take 2 (61 # rev body) \<noteq> [61, 61]"
    using r1 by (cases "rev body") auto
  consider "p = 0" | "p = 1" | "p = 2" using assms(2) by linarith
  then show ?thesis
  proof cases
    case 1
    with r1 r2 show ?thesis by (simp add: strip_padding_def Let_def)
  next
    case 2
    have "body @ replicate p 61 = body @ [61]" using 2 by simp
    moreover have "strip_padding (body @ [61]) = body"
      using r3 assms(3) 2 by (simp add: strip_padding_def Let_def)
    ultimately show ?thesis by simp
  next
    case 3
    have e: "body @ replicate p 61 = body @ [61, 61]" using 3 by (simp add: numeral_2_eq_2)
    have "strip_padding (body @ [61, 61]) = body"
      using assms(3) unfolding e by (simp add: strip_padding_def Let_def)
    with e show ?thesis by simp
  qed
qed

lemma atob_btoa:
  assumes "\<forall>c \<in> set s. c \<le> 255"
  shows "\<exists>t. btoa s = Inr t \<and> atob t = Inr s"
proof -
  let ?p = "(3 - length s mod 3) mod 3"
  let ?body = "map b64char (sextets s)"
  have b: "btoa s = Inr (?body @ replicate ?p 61)" using assms by (auto simp: btoa_def)
  have lt: "\<forall>v \<in> set (sextets s). v < 64" using assms by (rule sextets_lt)
  have f: "filter (\<lambda>c. \<not> ascii_whitespace c) (?body @ replicate ?p 61) = ?body @ replicate ?p 61"
    using lt by (rule filter_ws_body)
  have np: "61 \<notin> set ?body" using lt b64char_not_pad by auto
  have len: "length (?body @ replicate ?p 61) mod 4 = 0"
    using length_sextets [of s] by simp
  have p2: "?p \<le> 2" by simp
  have sp: "strip_padding (?body @ replicate ?p 61) = ?body"
    using np p2 len by (rule strip_padding_body)
  have m: "length ?body mod 4 \<noteq> 1" using length_sextets_mod [of s] by simp
  have "atob (?body @ replicate ?p 61) = Inr s"
    unfolding atob_def f sp Let_def using m those_b64val [OF lt] octets_sextets [OF assms]
    by simp
  with b show ?thesis by blast
qed

lemma split_last_hyphen_append:
  assumes "45 \<notin> set i"
  shows "split_last_hyphen (e @ 45 # i) = Some (e, i)"
proof -
  have a: "\<And>x. x \<in> set (rev i) \<Longrightarrow> x \<noteq> 45" using assms by auto
  have t: "takeWhile (\<lambda>c. c \<noteq> 45) (rev i @ 45 # rev e) = rev i"
    by (subst takeWhile_append2) (use a in auto)
  have d: "dropWhile (\<lambda>c. c \<noteq> 45) (rev i @ 45 # rev e) = 45 # rev e"
    by (subst dropWhile_append2) (use a in auto)
  show ?thesis by (simp add: split_last_hyphen_def t d)
qed

lemma dec_digits: "\<forall>c \<in> set (dec n). 48 \<le> c \<and> c \<le> 57"
proof (induction n rule: dec.induct)
  case (1 n)
  show ?case
  proof (cases "n < 10")
    case True
    then show ?thesis by (subst dec.simps) simp
  next
    case False
    with 1 show ?thesis by (subst dec.simps) simp
  qed
qed

lemma js_hyphen: "js ''-'' = [45]"
  by (simp add: js_def)

lemma token_decodes:
  assumes "\<forall>c \<in> set email. c \<le> 255" and "\<forall>c \<in> set assessmentId. c \<le> 255"
    and "45 \<notin> set assessmentId"
  shows "\<exists>token. reviewerId email assessmentId = Inr token
           \<and> decode token = Some (email, assessmentId)"
proof -
  let ?s = "email @ js ''-'' @ assessmentId"
  have le: "\<forall>c \<in> set ?s. c \<le> 255" using assms(1,2) by (auto simp: js_hyphen)
  from atob_btoa [OF le] obtain t where t: "btoa ?s = Inr t" "atob t = Inr ?s" by blast
  have "decode t = Some (email, assessmentId)"
    unfolding decode_def t(2) using split_last_hyphen_append [OF assms(3), of email]
    by (simp add: js_hyphen)
  with t(1) show ?thesis by (simp add: reviewerId_def)
qed

text \<open>
  Claim C1, as the code has it. The token of a pair (email, assessmentId) decodes to that
  pair whenever every code unit of both is at most 255, so that \<^verbatim>\<open>btoa\<close> accepts the
  text, and the assessmentId holds no hyphen, as no identifier made by \<^verbatim>\<open>handleSubmit\<close>
  does (it is \<^verbatim>\<open>Date.now().toString()\<close>). The email may hold hyphens, \<^verbatim>\<open>+\<close> and
  \<^verbatim>\<open>.\<close>; the assessmentId may be purely numeric.
\<close>

theorem identity_token_roundtrip:
  "(\<forall>c \<in> set email. c \<le> 255) \<and> (\<forall>c \<in> set assessmentId. c \<le> 255 \<and> c \<noteq> 45)
   \<longrightarrow> (\<exists>token. reviewerId email assessmentId = Inr token
                \<and> decode token = Some (email, assessmentId))"
  using token_decodes [of email assessmentId] by blast

theorem identity_token_roundtrip_witness:
  "list_all (\<lambda>c. c \<le> 255) (js ''a+b.c-d@x.com'')
   \<and> list_all (\<lambda>c. c \<le> 255 \<and> c \<noteq> 45) (js ''1700000000000'')
   \<and> (\<exists>token. reviewerId (js ''a+b.c-d@x.com'') (js ''1700000000000'') = Inr token
          \<and> decode token = Some (js ''a+b.c-d@x.com'', js ''1700000000000''))"
  using identity_token_roundtrip [of "js ''a+b.c-d@x.com''" "js ''1700000000000''"]
  by (simp add: js_def)

text \<open>
  The claim as it is stated fails at an input the form delivers: a reviewer line whose
  address is \<^verbatim>\<open>j\<close>, the letter U+0151 (code unit 337) and \<^verbatim>\<open>@x.com\<close>. The address
  contains \<^verbatim>\<open>@\<close> and is kept by \<^verbatim>\<open>handleSubmit\<close>; with the id of the clock, a string of
  digits, \<^verbatim>\<open>btoa\<close> throws, so there is no token to decode.
\<close>

theorem identity_token_not_encoded:
  "map r_email (reviewerList (js ''Janos|j'' @ [337] @ js ''@x.com''))
     = [js ''j'' @ [337] @ js ''@x.com'']
   \<and> includes_sub (js ''j'' @ [337] @ js ''@x.com'') (js ''@'')
   \<and> reviewerId (js ''j'' @ [337] @ js ''@x.com'') (dec 1700000000000)
       = Inl InvalidCharacterError"
proof -
  have a: "includes_sub (js ''j'' @ [337] @ js ''@x.com'') (js ''@'')"
    by (simp add: js_def)
  have rl: "map r_email (reviewerList (js ''Janos|j'' @ [337] @ js ''@x.com''))
            = [js ''j'' @ [337] @ js ''@x.com'']"
    by (simp add: reviewerList_def keep_reviewer_def plausible_def parse_line_def trim_def
          js_whitespace_def js_def)
  have b: "reviewerId (js ''j'' @ [337] @ js ''@x.com'') (dec 1700000000000)
           = Inl InvalidCharacterError"
    by (simp add: reviewerId_def btoa_def)
  from rl a b show ?thesis by simp
qed

text \<open>
  Why the identifier may hold no hyphen: two pairs that differ in where the hyphen sits have
  one token, so that no decoder gives back both. \<^verbatim>\<open>handleSubmit\<close> does not produce
  such pairs, its identifiers being strings of digits; for identifiers without a hyphen
  different pairs have different tokens.
\<close>

lemma hyphen_in_identifier_collides:
  "reviewerId (js ''a-b'') (js ''c'') = reviewerId (js ''a'') (js ''b-c'')"
  by (simp add: reviewerId_def js_def)

lemma token_injective:
  assumes "\<forall>c \<in> set e1. c \<le> 255" and "\<forall>c \<in> set i1. c \<le> 255" and "45 \<notin> set i1"
    and "\<forall>c \<in> set e2. c \<le> 255" and "\<forall>c \<in> set i2. c \<le> 255" and "45 \<notin> set i2"
    and "reviewerId e1 i1 = reviewerId e2 i2"
  shows "e1 = e2 \<and> i1 = i2"
proof -
  from token_decodes [OF assms(1,2,3)] obtain t1
    where t1: "reviewerId e1 i1 = Inr t1" "decode t1 = Some (e1, i1)" by blast
  from token_decodes [OF assms(4,5,6)] obtain t2
    where t2: "reviewerId e2 i2 = Inr t2" "decode t2 = Some (e2, i2)" by blast
  from t1(1) t2(1) assms(7) have "t1 = t2" by simp
  with t1(2) t2(2) show ?thesis by simp
qed

section \<open>Submitting feedback: the claims\<close>

text \<open>
  Claim C4. Appending a submission is the record update \<open>updatedRequest\<close>, a function of
  values: it returns a new aggregate and has no access to the one it is given. The
  aggregate returned has the submissions of the input followed by the new one, one element
  more, and every other field (id, candidateName, candidateRole, reviewers, formLinks,
  status, feedback, createdAt) is the input's.
\<close>

theorem append_submission_frame:
  "responses (updatedRequest a s) = responses a @ [s]
   \<and> length (responses (updatedRequest a s)) = length (responses a) + 1
   \<and> id' (updatedRequest a s) = id' a
   \<and> candidateName (updatedRequest a s) = candidateName a
   \<and> candidateRole (updatedRequest a s) = candidateRole a
   \<and> reviewerEmails (updatedRequest a s) = reviewerEmails a
   \<and> reviewerNames (updatedRequest a s) = reviewerNames a
   \<and> formLinks (updatedRequest a s) = formLinks a
   \<and> status (updatedRequest a s) = status a
   \<and> feedback (updatedRequest a s) = feedback a
   \<and> createdAt (updatedRequest a s) = createdAt a"
  by (simp add: updatedRequest_def)

lemma indexOf_ge: "- 1 \<le> indexOf xs x"
  by (induction xs) (auto simp: Let_def)

lemma indexOf_absent: "x \<notin> set xs \<Longrightarrow> indexOf xs x = - 1"
  by (induction xs) (auto simp: Let_def)

lemma formSubmission_unknown:
  "rEmail \<notin> set (reviewerEmails a) \<Longrightarrow> reviewerName (formSubmission ev a rEmail sc txt) = rEmail"
  by (simp add: formSubmission_def indexOf_absent at_index_def)

lemma handleFeedbackSubmit_selected:
  "selectedRequest st = Some a \<Longrightarrow>
   selectedRequest (fst (handleFeedbackSubmit ev st sub)) = Some (updatedRequest a sub)"
  by (simp add: handleFeedbackSubmit_def stateAtAwait_def Let_def split: sum.split)

lemma handleFeedbackSubmit_requests:
  "selectedRequest st = Some a \<Longrightarrow>
   requests (fst (handleFeedbackSubmit ev st sub)) = requests (stateAtAwait st a sub)"
  by (simp add: handleFeedbackSubmit_def Let_def split: sum.split)

lemma handleFeedbackSubmit_success:
  "selectedRequest st = Some a \<Longrightarrow>
   successMessage (fst (handleFeedbackSubmit ev st sub)) = js ''Thank you! Your feedback has been submitted.''"
  by (simp add: handleFeedbackSubmit_def stateAtAwait_def Let_def split: sum.split)

lemma handleFeedbackSubmit_error:
  "selectedRequest st = Some a \<Longrightarrow>
   error (fst (handleFeedbackSubmit ev st sub)) =
     (case callAIAgent ev (feedback_message ev (updatedRequest a sub) sub) of
        Inl m \<Rightarrow> if m = [] then js ''Failed to submit feedback'' else m
      | Inr _ \<Rightarrow> error st)"
  by (simp add: handleFeedbackSubmit_def stateAtAwait_def Let_def split: sum.split)

lemma handleFeedbackSubmit_loading:
  "selectedRequest st = Some a \<Longrightarrow> \<not> loading (fst (handleFeedbackSubmit ev st sub))"
  by (simp add: handleFeedbackSubmit_def stateAtAwait_def Let_def split: sum.split)

lemma handleFeedbackSubmit_calls:
  "selectedRequest st = Some a \<Longrightarrow>
   snd (handleFeedbackSubmit ev st sub) = [feedback_message ev (updatedRequest a sub) sub]"
  by (simp add: handleFeedbackSubmit_def Let_def split: sum.split)


lemma handleFeedbackSubmit_requests_map:
  "selectedRequest st = Some a \<Longrightarrow>
   requests (fst (handleFeedbackSubmit ev st sub)) =
     map (\<lambda>r. if id' r = id' a then a\<lparr>responses := responses a @ [sub]\<rparr> else r) (requests st)"
  by (simp add: handleFeedbackSubmit_requests stateAtAwait_def updatedRequest_def)

text \<open>
  Claim C3, as the code has it. The code has no check of the reviewer against the
  roster. For a reviewer email that is not on the roster of the selected assessment,
  \<^verbatim>\<open>FeedbackFormView.handleSubmit\<close> builds a submission whose reviewer name is the email
  itself, and \<^verbatim>\<open>handleFeedbackSubmit\<close> appends it to the responses of the assessment, in
  the selection and in the list of assessments, and announces success. The only error
  text it can set is that of a failed agent call; when the call returns, the error text
  is what it was.
\<close>

theorem unknown_reviewer_accepted:
  assumes "selectedRequest st = Some a" and "rEmail \<notin> set (reviewerEmails a)"
  shows "reviewerEmail (formSubmission ev a rEmail sc txt) = rEmail
     \<and> reviewerName (formSubmission ev a rEmail sc txt) = rEmail
     \<and> selectedRequest (fst (handleFeedbackSubmit ev st (formSubmission ev a rEmail sc txt)))
         = Some (updatedRequest a (formSubmission ev a rEmail sc txt))
     \<and> responses (updatedRequest a (formSubmission ev a rEmail sc txt))
         = responses a @ [formSubmission ev a rEmail sc txt]
     \<and> successMessage (fst (handleFeedbackSubmit ev st (formSubmission ev a rEmail sc txt)))
         = js ''Thank you! Your feedback has been submitted.''
     \<and> scores (formSubmission ev a rEmail sc txt) = sc
     \<and> textResponses (formSubmission ev a rEmail sc txt) = txt
     \<and> submissionTimestamp (formSubmission ev a rEmail sc txt) = isoNow ev
     \<and> selectedRequest (fst (handleFeedbackSubmit ev st (formSubmission ev a rEmail sc txt)))
         = Some (a\<lparr>responses := responses a @ [formSubmission ev a rEmail sc txt]\<rparr>)
     \<and> requests (fst (handleFeedbackSubmit ev st (formSubmission ev a rEmail sc txt)))
         = map (\<lambda>r. if id' r = id' a
                      then a\<lparr>responses := responses a @ [formSubmission ev a rEmail sc txt]\<rparr>
                      else r)
             (requests st)
     \<and> error (fst (handleFeedbackSubmit ev st (formSubmission ev a rEmail sc txt)))
         = (case callAIAgent ev
                   (feedback_message ev
                      (a\<lparr>responses := responses a @ [formSubmission ev a rEmail sc txt]\<rparr>)
                      (formSubmission ev a rEmail sc txt)) of
              Inl m \<Rightarrow> if m = [] then js ''Failed to submit feedback'' else m
            | Inr _ \<Rightarrow> error st)"
proof -
  let ?sub = "formSubmission ev a rEmail sc txt"
  have u: "updatedRequest a ?sub = a\<lparr>responses := responses a @ [?sub]\<rparr>"
    by (simp add: updatedRequest_def)
  have f: "reviewerEmail ?sub = rEmail" "scores ?sub = sc" "textResponses ?sub = txt"
    "submissionTimestamp ?sub = isoNow ev"
    by (simp_all add: formSubmission_def)
  have n: "reviewerName ?sub = rEmail" using assms(2) by (rule formSubmission_unknown)
  have s: "selectedRequest (fst (handleFeedbackSubmit ev st ?sub)) = Some (updatedRequest a ?sub)"
    using assms(1) by (rule handleFeedbackSubmit_selected)
  have r: "requests (fst (handleFeedbackSubmit ev st ?sub))
           = map (\<lambda>r. if id' r = id' a then a\<lparr>responses := responses a @ [?sub]\<rparr> else r)
               (requests st)"
    using assms(1) by (rule handleFeedbackSubmit_requests_map)
  have m: "successMessage (fst (handleFeedbackSubmit ev st ?sub))
           = js ''Thank you! Your feedback has been submitted.''"
    using assms(1) by (rule handleFeedbackSubmit_success)
  have e: "error (fst (handleFeedbackSubmit ev st ?sub))
           = (case callAIAgent ev (feedback_message ev (updatedRequest a ?sub) ?sub) of
                Inl m \<Rightarrow> if m = [] then js ''Failed to submit feedback'' else m
              | Inr _ \<Rightarrow> error st)"
    using assms(1) by (rule handleFeedbackSubmit_error)
  have p: "responses (updatedRequest a ?sub) = responses a @ [?sub]" unfolding u by simp
  show ?thesis
    using f n s [unfolded u] s r m e [unfolded u] p by simp
qed

theorem unknown_reviewer_accepted_witness:
  "selectedRequest example_state = Some example_request
   \<and> js ''eve@y.org'' \<notin> set (reviewerEmails example_request)
   \<and> reviewerName (formSubmission example_env example_request (js ''eve@y.org'') all_fours no_comments)
       = js ''eve@y.org''
   \<and> selectedRequest (fst (handleFeedbackSubmit example_env example_state
          (formSubmission example_env example_request (js ''eve@y.org'') all_fours no_comments)))
       = Some (updatedRequest example_request
          (formSubmission example_env example_request (js ''eve@y.org'') all_fours no_comments))
   \<and> requests (fst (handleFeedbackSubmit example_env example_state
          (formSubmission example_env example_request (js ''eve@y.org'') all_fours no_comments)))
       = [example_request\<lparr>responses :=
            [formSubmission example_env example_request (js ''eve@y.org'') all_fours no_comments]\<rparr>]
   \<and> error (fst (handleFeedbackSubmit example_env example_state
          (formSubmission example_env example_request (js ''eve@y.org'') all_fours no_comments)))
       = []"
proof -
  have s: "selectedRequest example_state = Some example_request"
    by (simp add: example_state_def)
  have n: "js ''eve@y.org'' \<notin> set (reviewerEmails example_request)"
    by (simp add: example_request_def js_def)
  have q: "requests example_state = [example_request]"
    by (simp add: example_state_def)
  have r: "responses example_request = []"
    by (simp add: example_request_def)
  have e: "error example_state = []"
    by (simp add: example_state_def initial_state_def)
  have c: "callAIAgent example_env m = Inr (js ''{}'')" for m
    by (simp add: example_env_def)
  from unknown_reviewer_accepted [OF s n, of example_env all_fours no_comments] s n
  show ?thesis by (simp add: q r e c)
qed

text \<open>
  The claim as it is stated fails: \<^verbatim>\<open>eve@y.org\<close> is not on the roster of the example
  assessment, whose responses are empty; after her submission the responses hold it, and
  no error is set.
\<close>

theorem unknown_reviewer_not_rejected:
  "js ''eve@y.org'' \<notin> set (reviewerEmails example_request)
   \<and> responses example_request = []
   \<and> map_option responses
        (selectedRequest (fst (handleFeedbackSubmit example_env example_state
           (formSubmission example_env example_request (js ''eve@y.org'') all_fours no_comments))))
       = Some [formSubmission example_env example_request (js ''eve@y.org'') all_fours no_comments]
   \<and> reviewerEmail
        (formSubmission example_env example_request (js ''eve@y.org'') all_fours no_comments)
       = js ''eve@y.org''
   \<and> error (fst (handleFeedbackSubmit example_env example_state
           (formSubmission example_env example_request (js ''eve@y.org'') all_fours no_comments)))
       = []"
proof -
  have s: "selectedRequest example_state = Some example_request"
    by (simp add: example_state_def)
  have e: "error example_state = []"
    by (simp add: example_state_def initial_state_def)
  have c: "callAIAgent example_env m = Inr (js ''{}'')" for m
    by (simp add: example_env_def)
  have n: "js ''eve@y.org'' \<notin> set (reviewerEmails example_request)"
    by (simp add: example_request_def js_def)
  have r: "responses example_request = []"
    by (simp add: example_request_def)
  show ?thesis
    using n r
    by (simp add: handleFeedbackSubmit_selected [OF s] handleFeedbackSubmit_error [OF s] c e
          updatedRequest_def formSubmission_def)
qed

text \<open>
  Claim C9. When \<^verbatim>\<open>handleFeedbackSubmit\<close> reaches the agent call, the new submission is
  already appended to the selected assessment, in the selection and in the list of
  assessments (every entry with the id of the selected one is replaced by the extended
  assessment, every other entry is left), the success message is set and the view is
  back at the input form. The call is made once. Whatever it returns, the state the
  handler leaves has the selection, the list and the success message of that moment; a
  failed call only sets the error text (and the busy flag is cleared on both paths).
\<close>

theorem feedback_kept_when_agent_fails:
  assumes "selectedRequest st = Some a"
  shows "selectedRequest (stateAtAwait st a sub) = Some (updatedRequest a sub)
     \<and> responses (updatedRequest a sub) = responses a @ [sub]
     \<and> successMessage (stateAtAwait st a sub) = js ''Thank you! Your feedback has been submitted.''
     \<and> snd (handleFeedbackSubmit ev st sub) = [feedback_message ev (updatedRequest a sub) sub]
     \<and> selectedRequest (fst (handleFeedbackSubmit ev st sub)) = selectedRequest (stateAtAwait st a sub)
     \<and> requests (fst (handleFeedbackSubmit ev st sub)) = requests (stateAtAwait st a sub)
     \<and> successMessage (fst (handleFeedbackSubmit ev st sub)) = successMessage (stateAtAwait st a sub)
     \<and> \<not> loading (fst (handleFeedbackSubmit ev st sub))
     \<and> error (fst (handleFeedbackSubmit ev st sub)) =
         (case callAIAgent ev (feedback_message ev (updatedRequest a sub) sub) of
            Inl m \<Rightarrow> if m = [] then js ''Failed to submit feedback'' else m
          | Inr _ \<Rightarrow> error st)
     \<and> selectedRequest (stateAtAwait st a sub) = Some (a\<lparr>responses := responses a @ [sub]\<rparr>)
     \<and> requests (stateAtAwait st a sub)
         = map (\<lambda>r. if id' r = id' a then a\<lparr>responses := responses a @ [sub]\<rparr> else r)
             (requests st)
     \<and> loading (stateAtAwait st a sub)
     \<and> error (stateAtAwait st a sub) = error st
     \<and> currentView (stateAtAwait st a sub) = InputView
     \<and> feedbackReviewerId (stateAtAwait st a sub) = []
     \<and> feedbackReviewerEmail (stateAtAwait st a sub) = []
     \<and> selectedRequest (fst (handleFeedbackSubmit ev st sub))
         = Some (a\<lparr>responses := responses a @ [sub]\<rparr>)
     \<and> requests (fst (handleFeedbackSubmit ev st sub))
         = map (\<lambda>r. if id' r = id' a then a\<lparr>responses := responses a @ [sub]\<rparr> else r)
             (requests st)
     \<and> successMessage (fst (handleFeedbackSubmit ev st sub))
         = js ''Thank you! Your feedback has been submitted.''
     \<and> currentView (fst (handleFeedbackSubmit ev st sub)) = InputView
     \<and> feedbackReviewerId (fst (handleFeedbackSubmit ev st sub)) = []
     \<and> feedbackReviewerEmail (fst (handleFeedbackSubmit ev st sub)) = []"
proof -
  have w: "selectedRequest (stateAtAwait st a sub) = Some (a\<lparr>responses := responses a @ [sub]\<rparr>)"
    "requests (stateAtAwait st a sub)
       = map (\<lambda>r. if id' r = id' a then a\<lparr>responses := responses a @ [sub]\<rparr> else r)
           (requests st)"
    "loading (stateAtAwait st a sub)"
    "error (stateAtAwait st a sub) = error st"
    "currentView (stateAtAwait st a sub) = InputView"
    "feedbackReviewerId (stateAtAwait st a sub) = []"
    "feedbackReviewerEmail (stateAtAwait st a sub) = []"
    "successMessage (stateAtAwait st a sub) = js ''Thank you! Your feedback has been submitted.''"
    by (simp_all add: stateAtAwait_def updatedRequest_def)
  have u: "updatedRequest a sub = a\<lparr>responses := responses a @ [sub]\<rparr>"
    by (simp add: updatedRequest_def)
  have v: "currentView (fst (handleFeedbackSubmit ev st sub)) = InputView"
    "feedbackReviewerId (fst (handleFeedbackSubmit ev st sub)) = []"
    "feedbackReviewerEmail (fst (handleFeedbackSubmit ev st sub)) = []"
    using assms
    by (simp_all add: handleFeedbackSubmit_def stateAtAwait_def Let_def split: sum.split)
  have h: "selectedRequest (fst (handleFeedbackSubmit ev st sub)) = Some (updatedRequest a sub)"
    "requests (fst (handleFeedbackSubmit ev st sub)) = requests (stateAtAwait st a sub)"
    "successMessage (fst (handleFeedbackSubmit ev st sub))
       = js ''Thank you! Your feedback has been submitted.''"
    "\<not> loading (fst (handleFeedbackSubmit ev st sub))"
    "snd (handleFeedbackSubmit ev st sub) = [feedback_message ev (updatedRequest a sub) sub]"
    using assms
    by (simp_all add: handleFeedbackSubmit_selected handleFeedbackSubmit_requests
          handleFeedbackSubmit_success handleFeedbackSubmit_loading handleFeedbackSubmit_calls)
  have e: "error (fst (handleFeedbackSubmit ev st sub)) =
         (case callAIAgent ev (feedback_message ev (updatedRequest a sub) sub) of
            Inl m \<Rightarrow> if m = [] then js ''Failed to submit feedback'' else m
          | Inr _ \<Rightarrow> error st)"
    using assms by (rule handleFeedbackSubmit_error)
  have p: "responses (updatedRequest a sub) = responses a @ [sub]" unfolding u by simp
  show ?thesis
    using h e v w p u by simp
qed

theorem feedback_kept_when_agent_fails_witness:
  "selectedRequest example_state = Some example_request
   \<and> callAIAgent failing_env
        (feedback_message failing_env
           (updatedRequest example_request
              (formSubmission failing_env example_request (js ''john@x.com'') all_fours no_comments))
           (formSubmission failing_env example_request (js ''john@x.com'') all_fours no_comments))
       = Inl (js ''Network error'')
   \<and> error (fst (handleFeedbackSubmit failing_env example_state
          (formSubmission failing_env example_request (js ''john@x.com'') all_fours no_comments)))
       = js ''Network error''
   \<and> selectedRequest (fst (handleFeedbackSubmit failing_env example_state
          (formSubmission failing_env example_request (js ''john@x.com'') all_fours no_comments)))
       = Some (updatedRequest example_request
          (formSubmission failing_env example_request (js ''john@x.com'') all_fours no_comments))
   \<and> responses (updatedRequest example_request
          (formSubmission failing_env example_request (js ''john@x.com'') all_fours no_comments))
       = [formSubmission failing_env example_request (js ''john@x.com'') all_fours no_comments]
   \<and> requests (fst (handleFeedbackSubmit failing_env example_state
          (formSubmission failing_env example_request (js ''john@x.com'') all_fours no_comments)))
       = [example_request\<lparr>responses :=
            [formSubmission failing_env example_request (js ''john@x.com'') all_fours no_comments]\<rparr>]"
proof -
  have s: "selectedRequest example_state = Some example_request"
    by (simp add: example_state_def)
  have q: "requests example_state = [example_request]"
    by (simp add: example_state_def)
  have c: "callAIAgent failing_env m = Inl (js ''Network error'')" for m
    by (simp add: failing_env_def)
  have n: "js ''Network error'' \<noteq> []"
    by (simp add: js_def)
  have r: "responses example_request = []"
    by (simp add: example_request_def)
  from feedback_kept_when_agent_fails [OF s, of
      "formSubmission failing_env example_request (js ''john@x.com'') all_fours no_comments"
      failing_env] s c n r q
  show ?thesis by simp
qed

section \<open>Classifying the recommendation\<close>







section \<open>Creating an assessment: the claims\<close>

lemma map_filter_empty: "(\<forall>x \<in> set xs. f x = None) \<Longrightarrow> List.map_filter f xs = []"
  by (induction xs) simp_all

lemma reviewerList_empty:
  assumes "\<forall>line \<in> set (split 10 reviewerData). \<not> plausible (snd (parse_line line))"
  shows "reviewerList reviewerData = []"
  unfolding reviewerList_def
proof (rule map_filter_empty, rule ballI)
  fix x assume "x \<in> set (map parse_line (split 10 reviewerData))"
  then obtain line where "line \<in> set (split 10 reviewerData)" "x = parse_line line" by auto
  with assms have "\<not> plausible (snd x)" by simp
  then show "keep_reviewer x = None"
    by (cases "snd x") (simp_all add: keep_reviewer_def)
qed

lemma map_filter_nonempty: "x \<in> set xs \<Longrightarrow> f x = Some y \<Longrightarrow> List.map_filter f xs \<noteq> []"
  by (induction xs) (auto split: option.split)

lemma reviewerList_nonempty:
  assumes "line \<in> set (split 10 reviewerData)" and "plausible (snd (parse_line line))"
  shows "reviewerList reviewerData \<noteq> []"
proof -
  from assms(2) obtain a where a: "snd (parse_line line) = Some a"
    by (cases "snd (parse_line line)") (auto simp: plausible_def)
  have "keep_reviewer (parse_line line) = Some \<lparr>r_name = fst (parse_line line), r_email = a\<rparr>"
    using a assms(2) by (simp add: keep_reviewer_def)
  moreover have "parse_line line \<in> set (map parse_line (split 10 reviewerData))"
    using assms(1) by simp
  ultimately show ?thesis unfolding reviewerList_def by (rule map_filter_nonempty [rotated])
qed

lemma split_nonempty: "split sep s \<noteq> []"
  by (induction s) (auto split: list.split)

lemma split_subset: "p \<in> set (split sep s) \<Longrightarrow> set p \<subseteq> set s"
proof (induction s arbitrary: p)
  case Nil
  then show ?case by simp
next
  case (Cons c cs)
  show ?case
  proof (cases "c = sep")
    case True
    with Cons show ?thesis by auto
  next
    case False
    obtain q qs where q: "split sep cs = q # qs"
      using split_nonempty [of sep cs] by (cases "split sep cs") auto
    with False Cons.prems have "p = c # q \<or> p \<in> set qs" by simp
    then show ?thesis
    proof
      assume "p = c # q"
      moreover have "set q \<subseteq> set cs" using Cons.IH [of q] q by simp
      ultimately show ?thesis by auto
    next
      assume "p \<in> set qs"
      then have "set p \<subseteq> set cs" using Cons.IH [of p] q by simp
      then show ?thesis by auto
    qed
  qed
qed

lemma trim_subset: "set (trim s) \<subseteq> set s"
proof
  fix x assume "x \<in> set (trim s)"
  then have "x \<in> set (dropWhile js_whitespace (rev (dropWhile js_whitespace s)))"
    by (simp add: trim_def)
  then have "x \<in> set (rev (dropWhile js_whitespace s))" by (rule set_dropWhileD)
  then have "x \<in> set (dropWhile js_whitespace s)" by simp
  then show "x \<in> set s" by (rule set_dropWhileD)
qed

lemma dropWhile_keeps: "c \<in> set s \<Longrightarrow> \<not> P c \<Longrightarrow> c \<in> set (dropWhile P s)"
  by (induction s) auto

lemma trim_keeps:
  assumes "c \<in> set s" and "\<not> js_whitespace c"
  shows "c \<in> set (trim s)"
proof -
  have "c \<in> set (rev (dropWhile js_whitespace s))"
    using assms by (simp add: dropWhile_keeps)
  then have "c \<in> set (dropWhile js_whitespace (rev (dropWhile js_whitespace s)))"
    using assms(2) by (rule dropWhile_keeps)
  then show ?thesis by (simp add: trim_def)
qed

lemma includes_at: "includes_sub a [c] \<Longrightarrow> c \<in> set a"
  by (induction a) auto

lemma parse_line_subset: "snd (parse_line line) = Some e \<Longrightarrow> set e \<subseteq> set line"
proof -
  assume h: "snd (parse_line line) = Some e"
  then obtain n rest where m: "map trim (split 124 line) = n # e # rest"
    by (auto simp: parse_line_def split: list.splits)
  then have "e \<in> set (map trim (split 124 line))" by simp
  then obtain p where p: "p \<in> set (split 124 line)" "e = trim p" by auto
  have "set e \<subseteq> set p" unfolding p(2) by (rule trim_subset)
  also have "\<dots> \<subseteq> set line" using p(1) by (rule split_subset)
  finally show ?thesis .
qed

lemma plausible_data_not_blank:
  assumes "line \<in> set (split 10 reviewerData)" and "plausible (snd (parse_line line))"
  shows "trim reviewerData \<noteq> []"
proof -
  from assms(2) obtain a where a: "snd (parse_line line) = Some a" "includes_sub a (js ''@'')"
    by (auto simp: plausible_def split: option.splits)
  have "js ''@'' = [64]" by (simp add: js_def)
  with a(2) have "64 \<in> set a" by (simp add: includes_at)
  with parse_line_subset [OF a(1)] split_subset [OF assms(1)] have "64 \<in> set reviewerData" by blast
  moreover have "\<not> js_whitespace 64" by (simp add: js_whitespace_def)
  ultimately have "64 \<in> set (trim reviewerData)" by (rule trim_keeps)
  then show ?thesis by auto
qed

text \<open>
  Claim C8. When the candidate name or the candidate role is empty (or blank), or no line
  of the reviewer text has an email that contains \<^verbatim>\<open>@\<close>, \<^verbatim>\<open>handleSubmit\<close> stops at its
  validation: an error text is shown, no call goes to the agent, and the list of
  assessments, the selection, the view and the busy flag are as they were.
\<close>

theorem invalid_creation_rejected:
  assumes "trim cName = [] \<or> trim cRole = []
           \<or> (\<forall>line \<in> set (split 10 reviewerData). \<not> plausible (snd (parse_line line)))"
  shows "snd (handleSubmit ev st cName cRole reviewerData) = []
     \<and> requests (fst (handleSubmit ev st cName cRole reviewerData)) = requests st
     \<and> selectedRequest (fst (handleSubmit ev st cName cRole reviewerData)) = selectedRequest st
     \<and> currentView (fst (handleSubmit ev st cName cRole reviewerData)) = currentView st
     \<and> loading (fst (handleSubmit ev st cName cRole reviewerData)) = loading st
     \<and> (error (fst (handleSubmit ev st cName cRole reviewerData)) = js ''Please fill in all fields''
        \<or> error (fst (handleSubmit ev st cName cRole reviewerData))
            = js ''Please enter at least one valid reviewer with email'')"
proof (cases "trim cName = [] \<or> trim cRole = [] \<or> trim reviewerData = []")
  case True
  then show ?thesis by (simp add: handleSubmit_def)
next
  case False
  with assms have "reviewerList reviewerData = []" by (simp add: reviewerList_empty)
  with False show ?thesis by (simp add: handleSubmit_def)
qed

theorem invalid_creation_rejected_witness:
  "trim [] = []
   \<and> snd (handleSubmit example_env example_state [] (js ''Eng Manager'') (js ''John|john@x.com'')) = []
   \<and> requests (fst (handleSubmit example_env example_state [] (js ''Eng Manager'') (js ''John|john@x.com'')))
       = [example_request]
   \<and> error (fst (handleSubmit example_env example_state [] (js ''Eng Manager'') (js ''John|john@x.com'')))
       = js ''Please fill in all fields''"
proof -
  have t: "trim [] = []" by (simp add: trim_def)
  have r: "requests example_state = [example_request]" by (simp add: example_state_def)
  have e: "error (fst (handleSubmit example_env example_state [] (js ''Eng Manager'') (js ''John|john@x.com'')))
       = js ''Please fill in all fields''"
    by (simp add: handleSubmit_def t)
  from invalid_creation_rejected [of "[]" "js ''Eng Manager''" "js ''John|john@x.com''" example_env example_state] t r e
  show ?thesis by simp
qed

lemma dec_latin1: "\<forall>c \<in> set (dec n). c \<le> 255"
  using dec_digits [of n] by auto

lemma dec_no_hyphen: "45 \<notin> set (dec n)"
  using dec_digits [of n] by auto

lemma make_links_ok:
  assumes "\<forall>c \<in> set aid. c \<le> 255" and "45 \<notin> set aid"
  shows "(\<forall>r \<in> set rl. \<forall>c \<in> set (r_email r). c \<le> 255)
         \<Longrightarrow> \<exists>ls. make_links org aid rl = Inr ls \<and> list_all2 (link_ok org aid) rl ls"
proof (induction rl)
  case Nil
  then show ?case by simp
next
  case (Cons r rs)
  then obtain ls where ls: "make_links org aid rs = Inr ls" "list_all2 (link_ok org aid) rs ls"
    by auto
  have "\<forall>c \<in> set (r_email r). c \<le> 255" using Cons.prems by simp
  from token_decodes [OF this assms] obtain token
    where t: "reviewerId (r_email r) aid = Inr token" "decode token = Some (r_email r, aid)"
    by blast
  let ?l = "\<lparr>link_email = r_email r, link_reviewerName = r_name r,
     link_url = org @ js ''?reviewerId='' @ token @ js ''&email='' @ r_email r
                  @ js ''&assessmentId='' @ aid,
     link_status = js ''sent''\<rparr>"
  have h: "link_ok org aid r ?l" using t by (simp add: link_ok_def)
  have "make_links org aid (r # rs) = Inr (?l # ls)" using ls(1) t(1) by simp
  with h ls(2) show ?case by simp
qed

lemma handleSubmit_created:
  assumes n: "trim cName \<noteq> []" and r: "trim cRole \<noteq> []"
    and l: "line \<in> set (split 10 reviewerData)" and p: "plausible (snd (parse_line line))"
    and c: "callAIAgent ev (submit_message cName cRole (reviewerList reviewerData)) = Inr response"
    and j: "parseLLMJson ev response = Inr data"
    and e: "\<forall>r \<in> set (reviewerList reviewerData). \<forall>c \<in> set (r_email r). c \<le> 255"
  shows "\<exists>ls. list_all2 (link_ok (origin ev) (dec (now ev))) (reviewerList reviewerData) ls
     \<and> fst (handleSubmit ev st cName cRole reviewerData) =
         st\<lparr>error := [],
            requests := requests st @
              [\<lparr>id' = dec (now ev), candidateName = cName, candidateRole = cRole,
                reviewerEmails = map r_email (reviewerList reviewerData),
                reviewerNames = map r_name (reviewerList reviewerData),
                status = Sent, createdAt = isoNow ev, formLinks = ls,
                feedback = Some (case data of Wrapped f \<Rightarrow> f | Bare f \<Rightarrow> f),
                responses = []\<rparr>],
            selectedRequest := Some
               \<lparr>id' = dec (now ev), candidateName = cName, candidateRole = cRole,
                reviewerEmails = map r_email (reviewerList reviewerData),
                reviewerNames = map r_name (reviewerList reviewerData),
                status = Sent, createdAt = isoNow ev, formLinks = ls,
                feedback = Some (case data of Wrapped f \<Rightarrow> f | Bare f \<Rightarrow> f),
                responses = []\<rparr>,
            successMessage := js ''Assessment created! Share the feedback form links with reviewers.'',
            currentView := DashboardView,
            loading := False\<rparr>"
proof -
  have b: "trim reviewerData \<noteq> []" using l p by (rule plausible_data_not_blank)
  have q: "reviewerList reviewerData \<noteq> []" using l p by (rule reviewerList_nonempty)
  from make_links_ok [OF dec_latin1 dec_no_hyphen e]
  obtain ls where ls: "make_links (origin ev) (dec (now ev)) (reviewerList reviewerData) = Inr ls"
    "list_all2 (link_ok (origin ev) (dec (now ev))) (reviewerList reviewerData) ls"
    by blast
  have "fst (handleSubmit ev st cName cRole reviewerData) = st\<lparr>error := [],
            requests := requests st @
              [\<lparr>id' = dec (now ev), candidateName = cName, candidateRole = cRole,
                reviewerEmails = map r_email (reviewerList reviewerData),
                reviewerNames = map r_name (reviewerList reviewerData),
                status = Sent, createdAt = isoNow ev, formLinks = ls,
                feedback = Some (case data of Wrapped f \<Rightarrow> f | Bare f \<Rightarrow> f),
                responses = []\<rparr>],
            selectedRequest := Some
               \<lparr>id' = dec (now ev), candidateName = cName, candidateRole = cRole,
                reviewerEmails = map r_email (reviewerList reviewerData),
                reviewerNames = map r_name (reviewerList reviewerData),
                status = Sent, createdAt = isoNow ev, formLinks = ls,
                feedback = Some (case data of Wrapped f \<Rightarrow> f | Bare f \<Rightarrow> f),
                responses = []\<rparr>,
            successMessage := js ''Assessment created! Share the feedback form links with reviewers.'',
            currentView := DashboardView,
            loading := False\<rparr>"
    using n r b q c j ls(1) by (simp add: handleSubmit_def submit_body_def Let_def)
  with ls(2) show ?thesis by blast
qed


lemma link_ok_nth:
  assumes "list_all2 (link_ok org aid) rl ls" and "i < length rl"
  shows "link_email (ls ! i) = map r_email rl ! i
     \<and> (\<exists>token. link_url (ls ! i) = org @ js ''?reviewerId='' @ token @ js ''&email=''
                      @ map r_email rl ! i @ js ''&assessmentId='' @ aid
           \<and> decode token = Some (map r_email rl ! i, aid))"
proof -
  have "link_ok org aid (rl ! i) (ls ! i)" using assms by (rule list_all2_nthD)
  then show ?thesis using assms(2) by (auto simp: link_ok_def)
qed

text \<open>
  Claim C2, as the code has it. Let the candidate name and the candidate role be
  non-blank (non-empty once trimmed, which is what \<^verbatim>\<open>handleSubmit\<close> tests), let one line
  of the reviewer text have an email that contains \<^verbatim>\<open>@\<close>, let the agent call and the
  parse of its response return, and let the emails kept hold code units up to 255 only.
  Then \<^verbatim>\<open>handleSubmit\<close> selects and appends a new assessment whose id is the clock's
  reading, with as many form links as reviewers; the link at each position carries the
  email of the reviewer at that position, in its \<^verbatim>\<open>email\<close> field and in its URL, and the
  token in its URL decodes to that email and the id of the assessment.
\<close>

theorem created_assessment_links:
  assumes "trim cName \<noteq> []" and "trim cRole \<noteq> []"
    and "line \<in> set (split 10 reviewerData)" and "plausible (snd (parse_line line))"
    and "callAIAgent ev (submit_message cName cRole (reviewerList reviewerData)) = Inr response"
    and "parseLLMJson ev response = Inr data"
    and "\<forall>r \<in> set (reviewerList reviewerData). \<forall>c \<in> set (r_email r). c \<le> 255"
  shows "\<exists>a. selectedRequest (fst (handleSubmit ev st cName cRole reviewerData)) = Some a
     \<and> requests (fst (handleSubmit ev st cName cRole reviewerData)) = requests st @ [a]
     \<and> id' a = dec (now ev) \<and> candidateName a = cName \<and> candidateRole a = cRole
     \<and> status a = Sent \<and> responses a = []
     \<and> reviewerEmails a = map r_email (reviewerList reviewerData)
     \<and> reviewerEmails a \<noteq> []
     \<and> length (formLinks a) = length (reviewerEmails a)
     \<and> (\<forall>i < length (reviewerEmails a).
           link_email (formLinks a ! i) = reviewerEmails a ! i
           \<and> (\<exists>token. link_url (formLinks a ! i) =
                  origin ev @ js ''?reviewerId='' @ token @ js ''&email='' @ reviewerEmails a ! i
                  @ js ''&assessmentId='' @ id' a
                \<and> decode token = Some (reviewerEmails a ! i, id' a)))"
proof -
  from handleSubmit_created [OF assms, of st] obtain ls
    where ls: "list_all2 (link_ok (origin ev) (dec (now ev))) (reviewerList reviewerData) ls"
    and st': "fst (handleSubmit ev st cName cRole reviewerData) =
         st\<lparr>error := [],
            requests := requests st @
              [\<lparr>id' = dec (now ev), candidateName = cName, candidateRole = cRole,
                reviewerEmails = map r_email (reviewerList reviewerData),
                reviewerNames = map r_name (reviewerList reviewerData),
                status = Sent, createdAt = isoNow ev, formLinks = ls,
                feedback = Some (case data of Wrapped f \<Rightarrow> f | Bare f \<Rightarrow> f),
                responses = []\<rparr>],
            selectedRequest := Some
               \<lparr>id' = dec (now ev), candidateName = cName, candidateRole = cRole,
                reviewerEmails = map r_email (reviewerList reviewerData),
                reviewerNames = map r_name (reviewerList reviewerData),
                status = Sent, createdAt = isoNow ev, formLinks = ls,
                feedback = Some (case data of Wrapped f \<Rightarrow> f | Bare f \<Rightarrow> f),
                responses = []\<rparr>,
            successMessage := js ''Assessment created! Share the feedback form links with reviewers.'',
            currentView := DashboardView,
            loading := False\<rparr>"
    by blast
  have len: "length ls = length (reviewerList reviewerData)"
    using ls by (simp add: list_all2_lengthD)
  have ne: "reviewerList reviewerData \<noteq> []"
    using assms(3,4) by (rule reviewerList_nonempty)
  show ?thesis
    unfolding st' using len ne link_ok_nth [OF ls] by simp
qed

theorem created_assessment_links_witness:
  "trim (js ''Sarah Johnson'') \<noteq> [] \<and> trim (js ''Eng Manager'') \<noteq> []
   \<and> js ''John|john@x.com'' \<in> set (split 10 (js ''John|john@x.com''))
   \<and> plausible (snd (parse_line (js ''John|john@x.com'')))
   \<and> reviewerList (js ''John|john@x.com'') = [\<lparr>r_name = js ''John'', r_email = js ''john@x.com''\<rparr>]
   \<and> (\<exists>a. selectedRequest (fst (handleSubmit example_env initial_state (js ''Sarah Johnson'')
               (js ''Eng Manager'') (js ''John|john@x.com''))) = Some a
        \<and> id' a = dec 1700000000000
        \<and> reviewerEmails a = [js ''john@x.com'']
        \<and> length (formLinks a) = 1
        \<and> link_email (formLinks a ! 0) = js ''john@x.com''
        \<and> (\<exists>token. link_url (formLinks a ! 0) =
               js ''https://app.example'' @ js ''?reviewerId='' @ token @ js ''&email=''
               @ js ''john@x.com'' @ js ''&assessmentId='' @ dec 1700000000000
             \<and> decode token = Some (js ''john@x.com'', dec 1700000000000)))"
proof -
  have n: "trim (js ''Sarah Johnson'') \<noteq> []"
    by (simp add: trim_def js_def js_whitespace_def)
  have r: "trim (js ''Eng Manager'') \<noteq> []"
    by (simp add: trim_def js_def js_whitespace_def)
  have l: "js ''John|john@x.com'' \<in> set (split 10 (js ''John|john@x.com''))"
    by (simp add: js_def)
  have pl: "parse_line (js ''John|john@x.com'') = (js ''John'', Some (js ''john@x.com''))"
    by (simp add: parse_line_def trim_def js_def js_whitespace_def)
  have p: "plausible (snd (parse_line (js ''John|john@x.com'')))"
    unfolding pl by (simp add: plausible_def js_def)
  have sp: "split 10 (js ''John|john@x.com'') = [js ''John|john@x.com'']"
    by (simp add: js_def)
  have pp: "plausible (Some (js ''john@x.com''))"
    by (simp add: plausible_def js_def)
  have rl: "reviewerList (js ''John|john@x.com'') = [\<lparr>r_name = js ''John'', r_email = js ''john@x.com''\<rparr>]"
    by (simp add: reviewerList_def sp pl keep_reviewer_def pp)
  have c: "callAIAgent example_env m = Inr (js ''{}'')" for m
    by (simp add: example_env_def)
  have j: "parseLLMJson example_env (js ''{}'') = Inr (Bare \<lparr>feedback_summary = None\<rparr>)"
    by (simp add: example_env_def)
  have e: "\<forall>r \<in> set (reviewerList (js ''John|john@x.com'')). \<forall>c \<in> set (r_email r). c \<le> 255"
    unfolding rl by (simp add: js_def)
  have v: "now example_env = 1700000000000" "origin example_env = js ''https://app.example''"
    by (simp_all add: example_env_def)
  from created_assessment_links [OF n r l p c j e, of initial_state] n r l p rl
  show ?thesis unfolding v by auto
qed

text \<open>
  The claim as it is stated fails: a candidate name of one space is not empty, the role
  and the one reviewer are valid, and \<^verbatim>\<open>handleSubmit\<close> creates nothing.
\<close>

theorem blank_name_not_created:
  "js '' '' \<noteq> [] \<and> js ''Eng Manager'' \<noteq> []
   \<and> reviewerList (js ''John|john@x.com'') = [\<lparr>r_name = js ''John'', r_email = js ''john@x.com''\<rparr>]
   \<and> includes_sub (js ''john@x.com'') (js ''@'')
   \<and> requests (fst (handleSubmit example_env initial_state (js '' '') (js ''Eng Manager'')
         (js ''John|john@x.com''))) = []
   \<and> selectedRequest (fst (handleSubmit example_env initial_state (js '' '') (js ''Eng Manager'')
         (js ''John|john@x.com''))) = None
   \<and> error (fst (handleSubmit example_env initial_state (js '' '') (js ''Eng Manager'')
         (js ''John|john@x.com''))) = js ''Please fill in all fields''"
proof -
  have pl: "parse_line (js ''John|john@x.com'') = (js ''John'', Some (js ''john@x.com''))"
    by (simp add: parse_line_def trim_def js_def js_whitespace_def)
  have sp: "split 10 (js ''John|john@x.com'') = [js ''John|john@x.com'']"
    by (simp add: js_def)
  have pp: "plausible (Some (js ''john@x.com''))"
    by (simp add: plausible_def js_def)
  have rl: "reviewerList (js ''John|john@x.com'') = [\<lparr>r_name = js ''John'', r_email = js ''john@x.com''\<rparr>]"
    by (simp add: reviewerList_def sp pl keep_reviewer_def pp)
  have t: "trim (js '' '') = []"
    by (simp add: trim_def js_def js_whitespace_def)
  have i: "requests initial_state = []" "selectedRequest initial_state = None"
    by (simp_all add: initial_state_def)
  have a: "includes_sub (js ''john@x.com'') (js ''@'')" by (simp add: js_def)
  have b: "js '' '' \<noteq> []" "js ''Eng Manager'' \<noteq> []" by (simp_all add: js_def)
  show ?thesis using rl a b i by (simp add: handleSubmit_def t)
qed

section \<open>The shape of the exported report\<close>

lemma join_Cons: "ys \<noteq> [] \<Longrightarrow> join sep (x # ys) = x @ sep @ join sep ys"
  by (cases ys) simp_all

lemma join_split:
  "xs \<noteq> [] \<Longrightarrow> ys \<noteq> [] \<Longrightarrow> join sep (xs @ x # ys) = join sep xs @ sep @ x @ sep @ join sep ys"
proof (induction xs)
  case Nil
  then show ?case by simp
next
  case (Cons p ps)
  show ?case
  proof (cases "ps = []")
    case True
    with Cons.prems show ?thesis by (simp add: join_Cons)
  next
    case False
    have "join sep ((p # ps) @ x # ys) = p @ sep @ join sep (ps @ x # ys)"
      by (simp add: join_Cons)
    also have "\<dots> = p @ sep @ join sep ps @ sep @ x @ sep @ join sep ys"
      using Cons.IH [OF False Cons.prems(2)] by simp
    also have "\<dots> = join sep (p # ps) @ sep @ x @ sep @ join sep ys"
      using False by (simp add: join_Cons)
    finally show ?thesis .
  qed
qed

lemma set_join: "l \<in> set ls \<Longrightarrow> set l \<subseteq> set (join sep ls)"
proof (induction ls)
  case Nil
  then show ?case by simp
next
  case (Cons p ps)
  show ?case
  proof (cases "ps = []")
    case True
    with Cons.prems show ?thesis by simp
  next
    case False
    then have j: "join sep (p # ps) = p @ sep @ join sep ps" by (rule join_Cons)
    from Cons.prems have "l = p \<or> l \<in> set ps" by simp
    then show ?thesis
    proof
      assume "l = p" then show ?thesis unfolding j by auto
    next
      assume "l \<in> set ps"
      then have "set l \<subseteq> set (join sep ps)" by (rule Cons.IH)
      then show ?thesis unfolding j by auto
    qed
  qed
qed

lemma dropWhile_append_keep:
  assumes "c \<in> set pre" and "\<not> P c"
  shows "dropWhile P (pre @ rest) = dropWhile P pre @ rest"
  using assms by (induction pre) auto

lemma trim_inner:
  assumes "a \<in> set pre" "\<not> js_whitespace a" and "b \<in> set post" "\<not> js_whitespace b"
  shows "trim (pre @ x @ post)
         = dropWhile js_whitespace pre @ x @ rev (dropWhile js_whitespace (rev post))"
proof -
  have 1: "dropWhile js_whitespace (pre @ x @ post) = dropWhile js_whitespace pre @ x @ post"
    using assms(1,2) by (rule dropWhile_append_keep)
  have b: "b \<in> set (rev post)" using assms(3) by simp
  have 2: "dropWhile js_whitespace (rev post @ rev x @ rev (dropWhile js_whitespace pre))
           = dropWhile js_whitespace (rev post) @ rev x @ rev (dropWhile js_whitespace pre)"
    using b assms(4) by (rule dropWhile_append_keep)
  show ?thesis unfolding trim_def 1 by (simp add: 2)
qed

lemma length_report_lines: "length (report_lines ev r) = 40"
  by (simp add: report_lines_def Let_def)

lemma report_title: "report_lines ev r ! 1 = js ''FEEDBACK ASSESSMENT REPORT''"
  by (simp add: report_lines_def Let_def)

lemma report_last_rule: "report_lines ev r ! 37 = js ''=================''"
  by (simp add: report_lines_def Let_def)

lemma report_line_embedded:
  assumes "2 \<le> k" and "k \<le> 36"
  shows "\<exists>pre post. generatePDFContent ev r = pre @ [10] @ report_lines ev r ! k @ [10] @ post"
proof -
  let ?ls = "report_lines ev r"
  let ?xs = "take k ?ls" and ?ys = "drop (Suc k) ?ls"
  have len: "length ?ls = 40" by (rule length_report_lines)
  have k: "k < length ?ls" using assms(2) len by simp
  have ls: "?ls = ?xs @ ?ls ! k # ?ys" using k by (rule id_take_nth_drop)
  have xs: "?xs \<noteq> []" using assms(1) len by auto
  have ys: "?ys \<noteq> []" using assms(2) len by auto
  have j: "join [10] ?ls = join [10] ?xs @ ([10] @ ?ls ! k @ [10]) @ join [10] ?ys"
    by (subst ls) (simp add: join_split [OF xs ys])
  have "?xs ! 1 = ?ls ! 1" using assms(1) by simp
  moreover have "1 < length ?xs" using assms len by simp
  ultimately have "?ls ! 1 \<in> set ?xs" by (metis nth_mem)
  then have "set (?ls ! 1) \<subseteq> set (join [10] ?xs)" by (rule set_join)
  moreover have "70 \<in> set (?ls ! 1)" unfolding report_title by (simp add: js_def)
  ultimately have a: "70 \<in> set (join [10] ?xs)" by blast
  have "?ys ! (36 - k) = ?ls ! 37" using assms(2) len by simp
  moreover have "36 - k < length ?ys" using assms len by simp
  ultimately have "?ls ! 37 \<in> set ?ys" by (metis nth_mem)
  then have "set (?ls ! 37) \<subseteq> set (join [10] ?ys)" by (rule set_join)
  moreover have "61 \<in> set (?ls ! 37)" unfolding report_last_rule by (simp add: js_def)
  ultimately have b: "61 \<in> set (join [10] ?ys)" by blast
  have w: "\<not> js_whitespace 70" "\<not> js_whitespace 61" by (simp_all add: js_whitespace_def)
  have "generatePDFContent ev r
        = dropWhile js_whitespace (join [10] ?xs) @ ([10] @ ?ls ! k @ [10])
          @ rev (dropWhile js_whitespace (rev (join [10] ?ys)))"
    unfolding generatePDFContent_def j using a w(1) b w(2) by (rule trim_inner)
  then show ?thesis by auto
qed





section \<open>Strengths and concerns\<close>









section \<open>Rounding and the percentage\<close>

lemma bitlen_bounds: "0 < n \<Longrightarrow> 2 ^ (bitlen n - 1) \<le> n \<and> n < 2 ^ bitlen n"
proof (induction n rule: bitlen.induct)
  case (1 n)
  show ?case
  proof (cases "n div 2 = 0")
    case True
    with 1(2) have "n = 1" by (auto simp: div_eq_0_iff)
    then show ?thesis by (simp add: bitlen.simps)
  next
    case False
    then have h: "2 ^ (bitlen (n div 2) - 1) \<le> n div 2" "n div 2 < 2 ^ bitlen (n div 2)"
      using 1 by simp_all
    have b: "bitlen n = Suc (bitlen (n div 2))" using 1(2) by (subst bitlen.simps) simp
    have p: "0 < bitlen (n div 2)" using False by (subst bitlen.simps) simp
    then have e: "2 ^ bitlen (n div 2) = (2::nat) * 2 ^ (bitlen (n div 2) - 1)"
      by (cases "bitlen (n div 2)") simp_all
    have d: "2 * (n div 2) \<le> n" "n < 2 * (n div 2) + 2" by presburger+
    have lo: "(2::nat) ^ (bitlen n - 1) \<le> n" unfolding b using h(1) e d(1) by simp
    have hi: "n < 2 ^ bitlen n" unfolding b using h(2) d(2) by simp
    from lo hi show ?thesis ..
  qed
qed

lemma nearest_integer_round: "nearest_integer x = round x"
proof -
  let ?f = "\<lfloor>x\<rfloor>"
  have f: "of_int ?f \<le> x" "x < of_int ?f + 1" by linarith+
  show ?thesis
  proof (cases "x - of_int ?f < of_int (?f + 1) - x")
    case True
    have "\<lfloor>x + 1 / 2\<rfloor> = ?f"
    proof (rule floor_unique)
      show "of_int ?f \<le> x + 1 / 2" using f(1) by linarith
      show "x + 1 / 2 < of_int ?f + 1" using True by simp
    qed
    with True show ?thesis by (simp add: nearest_integer_def round_def Let_def)
  next
    case False
    have "\<lfloor>x + 1 / 2\<rfloor> = ?f + 1"
    proof (rule floor_unique)
      show "of_int (?f + 1) \<le> x + 1 / 2" using False by simp
      show "x + 1 / 2 < of_int (?f + 1) + 1" using f(2) by simp
    qed
    with False show ?thesis by (simp add: nearest_integer_def round_def Let_def)
  qed
qed

lemma toFixed0_small:
  "0 \<le> y \<Longrightarrow> y < 10 ^ 21 \<Longrightarrow> toFixed0 f (Finite y) = dec (nat (round y))"
  by (simp add: toFixed0_def nearest_integer_round)

lemma round_half_even_bounds:
  assumes "0 \<le> s"
  shows "0 \<le> round_half_even s" and "of_int (round_half_even s) \<le> s + 1"
proof -
  have f: "0 \<le> \<lfloor>s\<rfloor>" using assms by simp
  have g: "of_int \<lfloor>s\<rfloor> \<le> s" by simp
  have h: "of_int (\<lfloor>s\<rfloor> + 1) \<le> s + 1" using g by simp
  have c: "round_half_even s = \<lfloor>s\<rfloor> \<or> round_half_even s = \<lfloor>s\<rfloor> + 1"
    by (simp add: round_half_even_def Let_def)
  from c f show "0 \<le> round_half_even s" by auto
  from c show "of_int (round_half_even s) \<le> s + 1"
  proof
    assume "round_half_even s = \<lfloor>s\<rfloor>"
    then show ?thesis using of_int_floor_le [of s] by linarith
  next
    assume "round_half_even s = \<lfloor>s\<rfloor> + 1"
    then show ?thesis using of_int_floor_le [of s] by simp
  qed
qed


lemma ilog2_le:
  assumes "0 < q"
  shows "2 powi (ilog2 q) \<le> q"
proof -
  obtain n d where nd: "quotient_of q = (n, d)" by (cases "quotient_of q")
  have d: "0 < d" using nd by (rule quotient_of_denom_pos)
  have q: "q = of_int n / of_int d" using nd by (rule quotient_of_div)
  have n: "0 < n" using assms d unfolding q by (simp add: zero_less_divide_iff)
  let ?k = "int (bitlen (nat n)) - int (bitlen (nat d))"
  show ?thesis
  proof (cases "2 powi ?k \<le> q")
    case True
    then show ?thesis by (simp add: ilog2_def nd)
  next
    case False
    have bn: "2 ^ (bitlen (nat n) - 1) \<le> nat n" using bitlen_bounds [of "nat n"] n by simp
    have bd: "nat d < 2 ^ bitlen (nat d)" using bitlen_bounds [of "nat d"] d by simp
    have pn: "0 < bitlen (nat n)" using n by (subst bitlen.simps) simp
    have 1: "(2::rat) ^ (bitlen (nat n) - 1) \<le> of_int n"
    proof -
      have "(of_nat (2 ^ (bitlen (nat n) - 1)) :: rat) \<le> of_nat (nat n)"
        using bn by (simp only: of_nat_le_iff)
      then show ?thesis using n by simp
    qed
    have 2: "of_int d < (2::rat) ^ bitlen (nat d)"
    proof -
      have "(of_nat (nat d) :: rat) < of_nat (2 ^ bitlen (nat d))"
        using bd by (simp only: of_nat_less_iff)
      then show ?thesis using d by simp
    qed
    have e: "(2::rat) powi (?k - 1) = 2 ^ (bitlen (nat n) - 1) / 2 ^ bitlen (nat d)"
    proof -
      have "?k - 1 = int (bitlen (nat n) - 1) - int (bitlen (nat d))" using pn by simp
      then have "(2::rat) powi (?k - 1)
                 = 2 powi (int (bitlen (nat n) - 1) - int (bitlen (nat d)))"
        by (rule arg_cong)
      also have "\<dots> = 2 powi int (bitlen (nat n) - 1) / 2 powi int (bitlen (nat d))"
        by (rule power_int_diff) simp
      finally show ?thesis by (simp only: power_int_of_nat)
    qed
    have "(2::rat) ^ (bitlen (nat n) - 1) / 2 ^ bitlen (nat d) \<le> of_int n / 2 ^ bitlen (nat d)"
      using 1 by (simp add: divide_right_mono)
    also have "\<dots> \<le> of_int n / of_int d"
      using 2 n d by (simp add: frac_le)
    finally have "2 powi (?k - 1) \<le> q" unfolding e q .
    with False show ?thesis by (simp add: ilog2_def nd)
  qed
qed

lemma round_double_small:
  assumes "0 \<le> q" and "q \<le> 100"
  shows "\<exists>y. round_double q = Finite y \<and> 0 \<le> y \<and> y \<le> 200"
proof (cases "q = 0")
  case True
  then show ?thesis by (simp add: round_double_def)
next
  case False
  with assms have pos: "0 < q" by simp
  let ?e = "max (ilog2 q - 52) (- 1074)"
  let ?m = "round_half_even (q / 2 powi ?e)"
  let ?y = "of_int ?m * (2::rat) powi ?e"
  have p: "(0::rat) < 2 powi ?e" by (simp add: zero_less_power_int)
  have s: "0 \<le> q / 2 powi ?e" using pos p by simp
  have m0: "0 \<le> ?m" using s by (rule round_half_even_bounds)
  have m1: "of_int ?m \<le> q / 2 powi ?e + 1" using s by (rule round_half_even_bounds)
  have y0: "0 \<le> ?y" using m0 p by simp
  have "?y \<le> (q / 2 powi ?e + 1) * 2 powi ?e"
    using m1 p by (simp add: mult_right_mono)
  also have "\<dots> = q + 2 powi ?e" using p by (simp add: field_simps)
  finally have y1: "?y \<le> q + 2 powi ?e" .
  have pe: "(2::rat) powi ?e \<le> 100"
  proof (cases "ilog2 q - 52 \<le> - 1074")
    case True
    then have "?e = - 1074" by simp
    moreover have "(2::rat) powi (- 1074) \<le> 2 powi 0"
      by (rule power_int_increasing) simp_all
    ultimately show ?thesis by simp
  next
    case False
    then have "?e = ilog2 q - 52" by simp
    moreover have "(2::rat) powi (ilog2 q - 52) \<le> 2 powi (ilog2 q)"
      by (rule power_int_increasing) simp_all
    ultimately show ?thesis using ilog2_le [OF pos] assms(2) by simp
  qed
  have y2: "?y \<le> 200" using y1 pe assms(2) by simp
  have big: "(200::rat) < 2 ^ 1024"
  proof -
    have "(2::rat) ^ 8 \<le> 2 ^ 1024" by (rule power_increasing) simp_all
    then show ?thesis by simp
  qed
  have "\<not> 2 ^ 1024 \<le> ?y" using y2 big by simp
  then have "round_double q = Finite ?y"
    using pos by (simp add: round_double_def Let_def)
  with y0 y2 show ?thesis by blast
qed

text \<open>The rounded product lies within half a unit in the last place of the exact one.\<close>

lemma round_half_even_close: "\<bar>of_int (round_half_even s) - s\<bar> \<le> 1 / 2"
proof -
  let ?f = "\<lfloor>s\<rfloor>"
  have f: "of_int ?f \<le> s" "s < of_int ?f + 1" by linarith+
  consider "s - of_int ?f < 1 / 2" | "1 / 2 < s - of_int ?f" | "s - of_int ?f = 1 / 2"
    by linarith
  then show ?thesis
  proof cases
    case 1
    then have "round_half_even s = ?f" by (simp add: round_half_even_def Let_def)
    with 1 f show ?thesis by simp
  next
    case 2
    then have "round_half_even s = ?f + 1" by (simp add: round_half_even_def Let_def)
    with 2 f show ?thesis by simp
  next
    case 3
    then have "round_half_even s = ?f \<or> round_half_even s = ?f + 1"
      by (simp add: round_half_even_def Let_def)
    with 3 show ?thesis by auto
  qed
qed

lemma scaled_close:
  fixes m a p :: rat
  assumes "0 < p" and "\<bar>m - a / p\<bar> \<le> 1 / 2"
  shows "\<bar>m * p - a\<bar> \<le> p / 2"
proof -
  have "m * p - a = (m - a / p) * p" using assms(1) by (simp add: field_simps)
  then have "\<bar>m * p - a\<bar> = \<bar>m - a / p\<bar> * p" using assms(1) by (simp add: abs_mult)
  also have "\<dots> \<le> 1 / 2 * p" using assms(2) assms(1) by (intro mult_right_mono) simp_all
  finally show ?thesis by simp
qed

lemma round_double_close:
  assumes "round_double q = Finite y"
  shows "\<bar>y - q\<bar> \<le> 2 powi (max (ilog2 \<bar>q\<bar> - 52) (- 1074)) / 2"
proof (cases "q = 0")
  case True
  with assms show ?thesis by (simp add: round_double_def zero_le_power_int)
next
  case False
  define p :: rat where "p = 2 powi (max (ilog2 \<bar>q\<bar> - 52) (- 1074))"
  define m :: rat where "m = of_int (round_half_even (\<bar>q\<bar> / p))"
  have p: "0 < p" unfolding p_def by (simp add: zero_less_power_int)
  have c: "\<bar>m - \<bar>q\<bar> / p\<bar> \<le> 1 / 2" unfolding m_def by (rule round_half_even_close)
  have d: "\<bar>m * p - \<bar>q\<bar>\<bar> \<le> p / 2" using p c by (rule scaled_close)
  have y: "y = (if q < 0 then - (m * p) else m * p)"
    using assms False unfolding m_def p_def
    by (simp add: round_double_def Let_def split: if_splits)
  show ?thesis
  proof (cases "q < 0")
    case True
    then have "\<bar>y - q\<bar> = \<bar>m * p - \<bar>q\<bar>\<bar>" unfolding y by simp
    with d show ?thesis unfolding p_def by simp
  next
    case False
    then have "\<bar>y - q\<bar> = \<bar>m * p - \<bar>q\<bar>\<bar>" unfolding y by simp
    with d show ?thesis unfolding p_def by simp
  qed
qed

lemma number_or_zero_finite: "number_or_zero (Some (Finite x)) = Finite x"
  by (simp add: number_or_zero_def)

lemma number_or_zero_absent: "number_or_zero None = Finite 0"
  by (simp add: number_or_zero_def)

lemma view_score_text:
  "score_text (SummaryView ev fb) =
     toFixed0 (shortestDigits ev)
       (times_number
          (number_or_zero
             (overall_score (case feedback_summary fb of None \<Rightarrow> emptySummary | Some s \<Rightarrow> s)))
          (Finite 20))
     @ js ''%''"
  by (simp add: SummaryView_def Let_def)

lemma report_score_line:
  "feedback r = Some fb \<Longrightarrow>
   report_lines ev r ! 10 =
     js ''Overall Score: '' @
     toFixed0 (shortestDigits ev)
       (times_number
          (number_or_zero
             (overall_score (case feedback_summary fb of None \<Rightarrow> emptySummary | Some s \<Rightarrow> s)))
          (Finite 20))
     @ js ''%''"
  by (simp add: report_lines_def Let_def)

lemma percent_of_score:
  assumes "0 \<le> x" and "x \<le> 5"
  shows "\<exists>y. times_number (Finite x) (Finite 20) = Finite y
           \<and> toFixed0 f (times_number (Finite x) (Finite 20)) = dec (nat (round y))"
proof -
  have "0 \<le> x * 20" "x * 20 \<le> 100" using assms by simp_all
  from round_double_small [OF this] obtain y
    where y: "round_double (x * 20) = Finite y" "0 \<le> y" "y \<le> 200" by blast
  have "y < 10 ^ 21" using y(3) by simp
  with y(2) have "toFixed0 f (Finite y) = dec (nat (round y))" by (rule toFixed0_small)
  with y(1) show ?thesis by simp
qed

lemma seventy: "times_number (Finite (7 / 2)) (Finite 20) = Finite 70"
  by (simp add: round_double_def ilog2_def bitlen.simps round_half_even_def Let_def)

lemma seventy_text: "toFixed0 f (Finite 70) = js ''70''"
  by (simp add: toFixed0_def nearest_integer_def dec.simps js_def)

lemma zero_product: "times_number (Finite 0) (Finite 20) = Finite 0"
  by (simp add: round_double_def)

lemma zero_text: "toFixed0 f (Finite 0) = js ''0''"
  by (simp add: toFixed0_def nearest_integer_def dec.simps js_def)

lemma js_append: "js (a @ b) = js a @ js b"
  by (simp add: js_def)

text \<open>
  Claim C6. Let the score be a number \<open>x\<close> from 0 to 5 and \<open>y\<close> the product
  \<^verbatim>\<open>overallScore * 20\<close> as the runtime computes it (the double nearest to the exact
  product). Then the summary view shows, and the exported report prints on its
  \<^verbatim>\<open>Overall Score\<close> line, the integer \<open>round y\<close> (halves upwards) followed by \<^verbatim>\<open>%\<close>. The
  score 3.5 gives \<^verbatim>\<open>70%\<close>; the score 0 and an absent score give \<^verbatim>\<open>0%\<close>.
\<close>

theorem percentage_rendering:
  assumes "feedback r = Some fb"
    and "summary = (case feedback_summary fb of None \<Rightarrow> emptySummary | Some s \<Rightarrow> s)"
  shows "(\<forall>x. overall_score summary = Some (Finite x) \<and> 0 \<le> x \<and> x \<le> 5 \<longrightarrow>
            (\<exists>y. times_number (Finite x) (Finite 20) = Finite y
               \<and> score_text (SummaryView ev fb) = dec (nat (round y)) @ js ''%''
               \<and> (\<exists>pre post. generatePDFContent ev r =
                     pre @ [10] @ js ''Overall Score: '' @ dec (nat (round y)) @ js ''%''
                     @ [10] @ post)))
     \<and> (overall_score summary = Some (Finite (7 / 2)) \<longrightarrow>
            score_text (SummaryView ev fb) = js ''70%''
            \<and> (\<exists>pre post. generatePDFContent ev r =
                  pre @ [10] @ js ''Overall Score: 70%'' @ [10] @ post))
     \<and> (overall_score summary = Some (Finite 0) \<or> overall_score summary = None \<longrightarrow>
            score_text (SummaryView ev fb) = js ''0%''
            \<and> (\<exists>pre post. generatePDFContent ev r =
                  pre @ [10] @ js ''Overall Score: 0%'' @ [10] @ post))"
proof -
  let ?p = "times_number (number_or_zero (overall_score summary)) (Finite 20)"
  let ?t = "toFixed0 (shortestDigits ev) ?p"
  have v: "score_text (SummaryView ev fb) = ?t @ js ''%''"
    unfolding assms(2) by (rule view_score_text)
  have l: "report_lines ev r ! 10 = js ''Overall Score: '' @ ?t @ js ''%''"
    unfolding assms(2) using assms(1) by (rule report_score_line)
  have e: "\<exists>pre post. generatePDFContent ev r =
             pre @ [10] @ js ''Overall Score: '' @ ?t @ js ''%'' @ [10] @ post"
    using report_line_embedded [of 10 ev r] l by simp
  have a: "\<exists>y. times_number (Finite x) (Finite 20) = Finite y
               \<and> score_text (SummaryView ev fb) = dec (nat (round y)) @ js ''%''
               \<and> (\<exists>pre post. generatePDFContent ev r =
                     pre @ [10] @ js ''Overall Score: '' @ dec (nat (round y)) @ js ''%''
                     @ [10] @ post)"
    if h: "overall_score summary = Some (Finite x)" "0 \<le> x" "x \<le> 5" for x
  proof -
    from percent_of_score [OF h(2,3), of "shortestDigits ev"] obtain y
      where y: "times_number (Finite x) (Finite 20) = Finite y"
        "toFixed0 (shortestDigits ev) (times_number (Finite x) (Finite 20)) = dec (nat (round y))"
      by blast
    have "?t = dec (nat (round y))" using y(2) by (simp add: h(1) number_or_zero_finite)
    with v e y(1) show ?thesis by auto
  qed
  have s1: "js ''70%'' = js ''70'' @ js ''%''"
    and s2: "js ''Overall Score: 70%'' = js ''Overall Score: '' @ js ''70'' @ js ''%''"
    and s3: "js ''0%'' = js ''0'' @ js ''%''"
    and s4: "js ''Overall Score: 0%'' = js ''Overall Score: '' @ js ''0'' @ js ''%''"
    by (simp_all add: js_def)
  have b: "score_text (SummaryView ev fb) = js ''70%''
            \<and> (\<exists>pre post. generatePDFContent ev r =
                  pre @ [10] @ js ''Overall Score: 70%'' @ [10] @ post)"
    if h: "overall_score summary = Some (Finite (7 / 2))"
  proof -
    have "?p = Finite 70" unfolding h number_or_zero_finite by (rule seventy)
    then have "?t = js ''70''" by (simp only: seventy_text)
    with v e show ?thesis unfolding s1 s2 by simp
  qed
  have c: "score_text (SummaryView ev fb) = js ''0%''
            \<and> (\<exists>pre post. generatePDFContent ev r =
                  pre @ [10] @ js ''Overall Score: 0%'' @ [10] @ post)"
    if h: "overall_score summary = Some (Finite 0) \<or> overall_score summary = None"
  proof -
    have "number_or_zero (overall_score summary) = Finite 0"
      using h by (auto simp: number_or_zero_finite number_or_zero_absent)
    then have "?p = Finite 0" by (simp only: zero_product)
    then have "?t = js ''0''" by (simp only: zero_text)
    with v e show ?thesis unfolding s3 s4 by simp
  qed
  from a b c show ?thesis by blast
qed

theorem percentage_rendering_witness:
  "feedback analysed_request = Some \<lparr>feedback_summary = Some example_summary\<rparr>
   \<and> overall_score example_summary = Some (Finite (7 / 2))
   \<and> score_text (SummaryView example_env \<lparr>feedback_summary = Some example_summary\<rparr>) = js ''70%''
   \<and> (\<exists>pre post. generatePDFContent example_env analysed_request =
         pre @ [10] @ js ''Overall Score: 70%'' @ [10] @ post)"
proof -
  have f: "feedback analysed_request = Some \<lparr>feedback_summary = Some example_summary\<rparr>"
    by (simp add: analysed_request_def)
  have g: "example_summary =
      (case feedback_summary \<lparr>feedback_summary = Some example_summary\<rparr> of
         None \<Rightarrow> emptySummary | Some s \<Rightarrow> s)"
    by simp
  have o: "overall_score example_summary = Some (Finite (7 / 2))"
    by (simp add: example_summary_def)
  from percentage_rendering [OF f g, of example_env] f o
  show ?thesis by blast
qed

section \<open>Missing fields\<close>

lemma empty_view:
  "score_text (SummaryView example_env \<lparr>feedback_summary = None\<rparr>) = js ''0%''
   \<and> based_on_text (SummaryView example_env \<lparr>feedback_summary = None\<rparr>)
       = js ''Based on 0 responses (0% complete)''
   \<and> recommendation_text (SummaryView example_env \<lparr>feedback_summary = None\<rparr>) = []
   \<and> rationale_text (SummaryView example_env \<lparr>feedback_summary = None\<rparr>) = []
   \<and> strengths_shown (SummaryView example_env \<lparr>feedback_summary = None\<rparr>) = []
   \<and> concerns_shown (SummaryView example_env \<lparr>feedback_summary = None\<rparr>) = []
   \<and> map row_badge (criterion_rows (SummaryView example_env \<lparr>feedback_summary = None\<rparr>))
       = [js ''0/5'', js ''0/5'', js ''0/5'', js ''0/5'', js ''0/5'']
   \<and> map row_feedback (criterion_rows (SummaryView example_env \<lparr>feedback_summary = None\<rparr>))
       = [None, None, None, None, None]"
  by (simp add: SummaryView_def emptySummary_def criteriaList_def criterion_row_def rendered_def
        number_or_zero_def round_double_def toFixed0_def nearest_integer_def numberToString_def
        dec.simps example_env_def js_def Let_def)

text \<open>
  Claim C7, evaluated where the code departs from it. The example assessment carries a
  payload without \<^verbatim>\<open>feedback_summary\<close>, so that every field of the summary is missing. The
  summary view shows the recommendation as nothing and each of the five criteria as
  \<^verbatim>\<open>0/5\<close>. The exported report prints zeros for the numbers and empty blocks for the
  lists and the breakdown, and the text \<^verbatim>\<open>undefined\<close> for the recommendation, the
  rationale, both consensus areas and the executive summary.
\<close>

theorem missing_fields_rendered:
  "feedback example_request = Some \<lparr>feedback_summary = None\<rparr>
   \<and> recommendation_text (SummaryView example_env \<lparr>feedback_summary = None\<rparr>) = []
   \<and> map row_badge (criterion_rows (SummaryView example_env \<lparr>feedback_summary = None\<rparr>))
       = [js ''0/5'', js ''0/5'', js ''0/5'', js ''0/5'', js ''0/5'']
   \<and> generatePDFContent example_env example_request =
     join [10]
       [js ''FEEDBACK ASSESSMENT REPORT'',
        js ''=========================='',
        [],
        js ''Candidate: Sarah Johnson'',
        js ''Position: Eng Manager'',
        js ''Assessment Date: 11/14/2023'',
        [],
        js ''OVERALL SCORE'',
        js ''============='',
        js ''Overall Score: 0%'',
        js ''Total Responses: 0'',
        js ''Completion: 0%'',
        [],
        js ''RECOMMENDATION'',
        js ''=============='',
        js ''Recommendation: undefined'',
        js ''Rationale: undefined'',
        [],
        js ''KEY STRENGTHS'',
        js ''============='',
        [],
        [],
        js ''KEY CONCERNS'',
        js ''============'',
        [],
        [],
        js ''CRITERION BREAKDOWN'',
        js ''==================='',
        [],
        [],
        js ''CONSENSUS AREAS'',
        js ''==============='',
        js ''Strong Agreement: undefined'',
        js ''Areas of Disagreement: undefined'',
        [],
        js ''EXECUTIVE SUMMARY'',
        js ''================='',
        js ''undefined'']"
  using empty_view
  by (simp add: generatePDFContent_def report_lines_def example_request_def example_env_def
        emptySummary_def interpolated_def number_or_zero_def round_double_def toFixed0_def
        nearest_integer_def numberToString_def dec.simps trim_def js_whitespace_def js_def)

end
